theory Spec2Isabelle
  imports Main "HOL-Library.Product_Lexorder"
begin

unbundle bit_operations_syntax

section \<open>Strings, paths and errors\<close>

text \<open>
  A JavaScript string is modelled as a \<^typ>\<open>string\<close>: a list of code units below 256.
  File contents are byte strings of the same type; a file that is read as text (the
  checksum manifest) is identified with its bytes, which is exact for ASCII content.
\<close>

type_synonym path = string
type_synonym url = string

text \<open>
  Every \<^verbatim>\<open>new Error(...)\<close> of \<^verbatim>\<open>lib/Installer.js\<close>, and the errors its
  collaborators hand to \<^verbatim>\<open>reject\<close>, as one value each:
  \<^item> \<open>InvalidSelector\<close>: "Error validationg version selector: ..." (thrown by the constructor);
  \<^item> \<open>RequestFailed\<close>: the \<^verbatim>\<open>err\<close> of a request (callback or error event);
  \<^item> \<open>UnexpectedStatus\<close>, \<open>UnexpectedContentType\<close>: the two checks on the index response;
  \<^item> \<open>JsonSyntaxError\<close>: \<^verbatim>\<open>JSON.parse\<close> threw;
  \<^item> \<open>UncaughtTypeError\<close>: \<^verbatim>\<open>index.map\<close> or \<^verbatim>\<open>semver.maxSatisfying\<close> threw inside the
    request callback, where nothing catches it: no promise of the session settles;
  \<^item> \<open>NoSatisfyingVersion\<close>: "No version satisfies semver range: ...";
  \<^item> \<open>FsError\<close>: an error event of \<^verbatim>\<open>mkdirp\<close>, a read stream or a write stream;
  \<^item> \<open>MissingChecksum\<close>: "Could not find installer file in shasum list!";
  \<^item> \<open>ChecksumMismatch p e a\<close>: "p: expected sha256 e but got a".
\<close>

datatype error =
    InvalidSelector string
  | RequestFailed url
  | UnexpectedStatus nat
  | UnexpectedContentType "string option"
  | JsonSyntaxError
  | UncaughtTypeError
  | NoSatisfyingVersion string
  | FsError path
  | MissingChecksum
  | ChecksumMismatch path string string

section \<open>The digest: \<^verbatim>\<open>crypto.createHash("sha256")\<close>\<close>

text \<open>
  Node's hash object is SHA-256 as FIPS 180-4 defines it. Words are naturals below
  \<open>2 ^ 32\<close> with the wrap-around written out, so that the kernel evaluates a digest by
  rewriting numerals. Round constants and initial hash value are written in decimal.
\<close>

definition add32 :: "nat \<Rightarrow> nat \<Rightarrow> nat" where
  "add32 x y = (x + y) mod 4294967296"

definition rotr :: "nat \<Rightarrow> nat \<Rightarrow> nat" where
  "rotr n x = x div 2 ^ n + (x mod 2 ^ n) * 2 ^ (32 - n)"

definition shr :: "nat \<Rightarrow> nat \<Rightarrow> nat" where
  "shr n x = x div 2 ^ n"

definition K256 :: "nat list" where
  "K256 =
    [1116352408, 1899447441, 3049323471, 3921009573, 961987163, 1508970993,
     2453635748, 2870763221, 3624381080, 310598401, 607225278, 1426881987,
     1925078388, 2162078206, 2614888103, 3248222580, 3835390401, 4022224774,
     264347078, 604807628, 770255983, 1249150122, 1555081692, 1996064986,
     2554220882, 2821834349, 2952996808, 3210313671, 3336571891, 3584528711,
     113926993, 338241895, 666307205, 773529912, 1294757372, 1396182291,
     1695183700, 1986661051, 2177026350, 2456956037, 2730485921, 2820302411,
     3259730800, 3345764771, 3516065817, 3600352804, 4094571909, 275423344,
     430227734, 506948616, 659060556, 883997877, 958139571, 1322822218,
     1537002063, 1747873779, 1955562222, 2024104815, 2227730452, 2361852424,
     2428436474, 2756734187, 3204031479, 3329325298]"

definition H256 :: "nat list" where
  "H256 =
    [1779033703, 3144134277, 1013904242, 2773480762, 1359893119, 2600822924,
     528734635, 1541459225]"

definition ch :: "nat \<Rightarrow> nat \<Rightarrow> nat \<Rightarrow> nat" where
  "ch x y z = (x AND y) XOR ((4294967295 - x) AND z)"

definition maj :: "nat \<Rightarrow> nat \<Rightarrow> nat \<Rightarrow> nat" where
  "maj x y z = (x AND y) XOR (x AND z) XOR (y AND z)"

definition bsig0 :: "nat \<Rightarrow> nat" where
  "bsig0 x = rotr 2 x XOR rotr 13 x XOR rotr 22 x"

definition bsig1 :: "nat \<Rightarrow> nat" where
  "bsig1 x = rotr 6 x XOR rotr 11 x XOR rotr 25 x"

definition ssig0 :: "nat \<Rightarrow> nat" where
  "ssig0 x = rotr 7 x XOR rotr 18 x XOR shr 3 x"

definition ssig1 :: "nat \<Rightarrow> nat" where
  "ssig1 x = rotr 17 x XOR rotr 19 x XOR shr 10 x"

text \<open>The message schedule, newest word first: the head of the list is \<open>W[t-1]\<close>.\<close>

fun schedule :: "nat \<Rightarrow> nat list \<Rightarrow> nat list" where
  "schedule 0 ws = ws"
| "schedule (Suc n) ws =
     schedule n (add32 (add32 (ssig1 (ws ! 1)) (ws ! 6)) (add32 (ssig0 (ws ! 14)) (ws ! 15)) # ws)"

type_synonym sha_state = "nat \<times> nat \<times> nat \<times> nat \<times> nat \<times> nat \<times> nat \<times> nat"

definition T1 :: "nat \<Rightarrow> nat \<Rightarrow> nat \<Rightarrow> nat \<Rightarrow> nat \<Rightarrow> nat \<Rightarrow> nat" where
  "T1 e f g h k w = add32 (add32 (add32 h (bsig1 e)) (add32 (ch e f g) k)) w"

definition T2 :: "nat \<Rightarrow> nat \<Rightarrow> nat \<Rightarrow> nat" where
  "T2 a b c = add32 (bsig0 a) (maj a b c)"

fun round1 :: "sha_state \<Rightarrow> nat \<times> nat \<Rightarrow> sha_state" where
  "round1 (a, b, c, d, e, f, g, h) (k, w) =
     (add32 (T1 e f g h k w) (T2 a b c), a, b, c, add32 d (T1 e f g h k w), e, f, g)"

definition to_state :: "nat list \<Rightarrow> sha_state" where
  "to_state hs = (hs ! 0, hs ! 1, hs ! 2, hs ! 3, hs ! 4, hs ! 5, hs ! 6, hs ! 7)"

fun of_state :: "sha_state \<Rightarrow> nat list" where
  "of_state (a, b, c, d, e, f, g, h) = [a, b, c, d, e, f, g, h]"

fun be32 :: "nat list \<Rightarrow> nat list" where
  "be32 (a # b # c # d # bs) = (((a * 256 + b) * 256 + c) * 256 + d) # be32 bs"
| "be32 _ = []"

definition compress :: "nat list \<Rightarrow> nat list \<Rightarrow> nat list" where
  "compress hs block =
     map2 add32 hs
       (of_state (foldl round1 (to_state hs) (zip K256 (rev (schedule 48 (rev (be32 block)))))))"

fun blocks :: "nat \<Rightarrow> nat list \<Rightarrow> nat list list" where
  "blocks 0 bs = []"
| "blocks (Suc n) bs = take 64 bs # blocks n (drop 64 bs)"

definition be_bytes :: "nat \<Rightarrow> nat \<Rightarrow> nat list" where
  "be_bytes n x = map (\<lambda>i. (x div 256 ^ i) mod 256) (rev [0..<n])"

definition pad :: "nat list \<Rightarrow> nat list" where
  "pad bs =
     bs @ [128] @ replicate ((119 - length bs mod 64) mod 64) 0 @ be_bytes 8 (8 * length bs)"

definition sha256 :: "nat list \<Rightarrow> nat list" where
  "sha256 bs =
     concat (map (be_bytes 4) (foldl compress H256 (blocks (length (pad bs) div 64) (pad bs))))"

text \<open>\<^verbatim>\<open>buffer.toString("hex")\<close>: two lower-case digits for each byte.\<close>

definition hex_digits :: string where
  "hex_digits = ''0123456789abcdef''"

definition hexdigit :: "nat \<Rightarrow> char" where
  "hexdigit n = hex_digits ! n"

definition hex :: "nat list \<Rightarrow> string" where
  "hex bs = concat (map (\<lambda>b. [hexdigit (b div 16), hexdigit (b mod 16)]) bs)"

text \<open>The digest \<^verbatim>\<open>validateShasum\<close> compares: the hex SHA-256 of a file's bytes.\<close>

definition shasum_of :: "string \<Rightarrow> string" where
  "shasum_of content = hex (sha256 (map of_char content))"

section \<open>The libraries and the process, as an environment\<close>

text \<open>
  \<^verbatim>\<open>lib/Installer.js\<close> calls into \<^verbatim>\<open>semver\<close>, \<^verbatim>\<open>path\<close> and \<^verbatim>\<open>JSON\<close>, and reads
  \<^verbatim>\<open>process\<close> and \<^verbatim>\<open>__dirname\<close>. None of them is code of the repository, so they are
  the fields of an environment that every definition below takes as its first argument:
  \<^item> \<open>validRange s\<close>: \<^verbatim>\<open>semver.validRange(s) !== null\<close>;
  \<^item> \<open>parseVersion s\<close>: the version \<^verbatim>\<open>new SemVer(s)\<close> reads from \<open>s\<close> (major, minor, patch
    and prerelease tags; build metadata is not part of it), \<open>None\<close> for an invalid string.
    Precedence of versions is the linear order of the type \<open>'v\<close>;
  \<^item> \<open>testRange r v\<close>: \<^verbatim>\<open>new Range(r).test(v)\<close> for a valid range \<open>r\<close>;
  \<^item> \<open>jsonIndex body\<close>: what \<^verbatim>\<open>JSON.parse(body)\<close> gives, read as a release index;
  \<^item> \<open>pathJoin\<close>, \<open>pathResolve\<close>: \<^verbatim>\<open>path.join\<close> and \<^verbatim>\<open>path.resolve\<close> of two arguments;
  \<^item> \<open>cacheRoot\<close>: \<^verbatim>\<open>path.resolve(__dirname, "..", "cache")\<close>;
  \<^item> \<open>processPlatform\<close>, \<open>processArch\<close>: \<^verbatim>\<open>process.platform\<close> and \<^verbatim>\<open>process.arch\<close>.
\<close>

datatype json_index =
    JsonSyntax
  | JsonNotIndex
  | JsonReleases "string list"

record 'v env =
  validRange :: "string \<Rightarrow> bool"
  parseVersion :: "string \<Rightarrow> 'v option"
  testRange :: "string \<Rightarrow> 'v \<Rightarrow> bool"
  jsonIndex :: "string \<Rightarrow> json_index"
  pathJoin :: "path \<Rightarrow> string \<Rightarrow> path"
  pathResolve :: "path \<Rightarrow> string \<Rightarrow> path"
  cacheRoot :: path
  processPlatform :: string
  processArch :: string

subsection \<open>\<^verbatim>\<open>semver.maxSatisfying\<close>\<close>

text \<open>
  \<^verbatim>\<open>satisfies(version, range)\<close> is false for an invalid range and for the empty
  string. For any other string that is not a version, \<^verbatim>\<open>Range.test\<close> builds a
  \<^verbatim>\<open>SemVer\<close> from it, which throws a \<^verbatim>\<open>TypeError\<close>; \<open>Inl\<close> is that exception.
  \<^verbatim>\<open>maxSatisfying\<close> filters the list with \<^verbatim>\<open>satisfies\<close>, in order, so the first such
  string ends it with the exception; it then sorts what is left by \<^verbatim>\<open>rcompare\<close> and
  returns the head, or \<^verbatim>\<open>null\<close> (here \<open>None\<close>) when nothing is left. \<open>pick\<close> keeps the
  entry no other exceeds; of entries of equal precedence it keeps the first.
\<close>

definition satisfies :: "'v env \<Rightarrow> string \<Rightarrow> string \<Rightarrow> error + bool" where
  "satisfies E version rng =
     (if \<not> validRange E rng \<or> version = [] then Inr False
      else (case parseVersion E version of
              None \<Rightarrow> Inl UncaughtTypeError
            | Some v \<Rightarrow> Inr (testRange E rng v)))"

fun filter_satisfying :: "'v env \<Rightarrow> string \<Rightarrow> string list \<Rightarrow> error + string list" where
  "filter_satisfying E rng [] = Inr []"
| "filter_satisfying E rng (v # vs) =
     (case satisfies E v rng of
        Inl e \<Rightarrow> Inl e
      | Inr keep \<Rightarrow>
          (case filter_satisfying E rng vs of
             Inl e \<Rightarrow> Inl e
           | Inr rest \<Rightarrow> Inr (if keep then v # rest else rest)))"

definition version_lt :: "('v::linorder) env \<Rightarrow> string \<Rightarrow> string \<Rightarrow> bool" where
  "version_lt E a b =
     (case parseVersion E a of
        None \<Rightarrow> False
      | Some x \<Rightarrow> (case parseVersion E b of None \<Rightarrow> False | Some y \<Rightarrow> x < y))"

definition version_le :: "('v::linorder) env \<Rightarrow> string \<Rightarrow> string \<Rightarrow> bool" where
  "version_le E a b =
     (case parseVersion E a of
        None \<Rightarrow> False
      | Some x \<Rightarrow> (case parseVersion E b of None \<Rightarrow> False | Some y \<Rightarrow> x \<le> y))"

definition pick :: "('v::linorder) env \<Rightarrow> string option \<Rightarrow> string \<Rightarrow> string option" where
  "pick E mx v =
     (if (case mx of None \<Rightarrow> True | Some m \<Rightarrow> version_lt E m v) then Some v else mx)"

definition maxSatisfying ::
  "('v::linorder) env \<Rightarrow> string list \<Rightarrow> string \<Rightarrow> error + string option" where
  "maxSatisfying E versions rng =
     (case filter_satisfying E rng versions of
        Inl e \<Rightarrow> Inl e
      | Inr kept \<Rightarrow> Inr (foldl (pick E) None kept))"

subsection \<open>Version resolution (the request callback of \<^verbatim>\<open>this._version\<close>, lines 62 to 68)\<close>

text \<open>
  \<^verbatim>\<open>release.version.replace(/^v/, "")\<close>: one leading \<open>v\<close> is dropped, nothing else.
  Nothing catches an exception of \<^verbatim>\<open>maxSatisfying\<close>: it leaves the request callback,
  and the promise is neither fulfilled nor rejected.
\<close>

fun strip_v :: "string \<Rightarrow> string" where
  "strip_v [] = []"
| "strip_v (c # cs) = (if c = CHR ''v'' then cs else c # cs)"

definition resolveVersion :: "('v::linorder) env \<Rightarrow> string \<Rightarrow> string list \<Rightarrow> error + string" where
  "resolveVersion E versionSelector index =
     (let versions = map strip_v index in
      case maxSatisfying E versions versionSelector of
        Inl e \<Rightarrow> Inl e
      | Inr None \<Rightarrow> Inl (NoSatisfyingVersion versionSelector)
      | Inr (Some satisfyingVersion) \<Rightarrow> Inr satisfyingVersion)"

subsection \<open>An instance of the libraries, for evaluating the model\<close>

text \<open>
  The theorems below hold for every environment. To run the model on concrete inputs,
  \<open>node_env\<close> instantiates the libraries on a fragment of what they accept: versions
  \<open>X.Y.Z\<close> of decimal numbers ordered lexicographically, the ranges \<open>X.Y.Z\<close> and
  \<open>^X.Y.Z\<close>, an index body that is an array of objects with the one key
  \<^verbatim>\<open>"version"\<close> and no white space, and POSIX paths joined by a slash (which is what
  \<^verbatim>\<open>path.join\<close> and \<^verbatim>\<open>path.resolve\<close> return for an absolute normal directory and a
  name without separators).
\<close>

fun index_from :: "nat \<Rightarrow> char \<Rightarrow> string \<Rightarrow> nat option" where
  "index_from n c [] = None"
| "index_from n c (d # ds) = (if c = d then Some n else index_from (n + 1) c ds)"

definition digit_val :: "char \<Rightarrow> nat option" where
  "digit_val c = index_from 0 c ''0123456789''"

fun decimal_acc :: "nat \<Rightarrow> string \<Rightarrow> nat option" where
  "decimal_acc n [] = Some n"
| "decimal_acc n (c # cs) =
     (case digit_val c of None \<Rightarrow> None | Some d \<Rightarrow> decimal_acc (10 * n + d) cs)"

text \<open>A numeric identifier: \<open>0\<close>, or digits that do not start with \<open>0\<close>.\<close>

definition decimal :: "string \<Rightarrow> nat option" where
  "decimal s =
     (if s = [] \<or> (hd s = CHR ''0'' \<and> tl s \<noteq> []) then None else decimal_acc 0 s)"

fun split_on :: "char \<Rightarrow> string \<Rightarrow> string list" where
  "split_on sep [] = [[]]"
| "split_on sep (c # cs) =
     (if c = sep then [] # split_on sep cs
      else (case split_on sep cs of [] \<Rightarrow> [[c]] | p # ps \<Rightarrow> (c # p) # ps))"

definition xyz_version :: "string \<Rightarrow> (nat \<times> nat \<times> nat) option" where
  "xyz_version s =
     (case map decimal (split_on (CHR ''.'') s) of
        [Some x, Some y, Some z] \<Rightarrow> Some (x, y, z)
      | _ \<Rightarrow> None)"

text \<open>The upper bound of a caret range: the next version that changes the leftmost non-zero part.\<close>

fun caret_bound :: "nat \<times> nat \<times> nat \<Rightarrow> nat \<times> nat \<times> nat" where
  "caret_bound (x, y, z) =
     (if 0 < x then (x + 1, 0, 0) else if 0 < y then (0, y + 1, 0) else (0, 0, z + 1))"

definition xyz_range :: "string \<Rightarrow> ((nat \<times> nat \<times> nat) \<times> (nat \<times> nat \<times> nat)) option" where
  "xyz_range r =
     (case r of
        [] \<Rightarrow> None
      | c # cs \<Rightarrow>
          if c = CHR ''^''
          then (case xyz_version cs of None \<Rightarrow> None | Some v \<Rightarrow> Some (v, caret_bound v))
          else (case xyz_version r of None \<Rightarrow> None
                | Some v \<Rightarrow> Some (v, (fst v, fst (snd v), snd (snd v) + 1))))"

definition xyz_test :: "string \<Rightarrow> nat \<times> nat \<times> nat \<Rightarrow> bool" where
  "xyz_test r v = (case xyz_range r of None \<Rightarrow> False | Some (lo, hi) \<Rightarrow> lo \<le> v \<and> v < hi)"

fun strip_prefix :: "string \<Rightarrow> string \<Rightarrow> string option" where
  "strip_prefix [] s = Some s"
| "strip_prefix (p # ps) [] = None"
| "strip_prefix (p # ps) (c # cs) = (if p = c then strip_prefix ps cs else None)"

definition strip_suffix :: "string \<Rightarrow> string \<Rightarrow> string option" where
  "strip_suffix p s = map_option rev (strip_prefix (rev p) (rev s))"

definition release_object :: "string \<Rightarrow> string option" where
  \<open>release_object s =
     (case strip_prefix ''{"version":"'' s of
        None \<Rightarrow> None
      | Some r \<Rightarrow>
          (case strip_suffix ''"}'' r of
             None \<Rightarrow> None
           | Some v \<Rightarrow> if CHR ''"'' \<in> set v \<or> CHR 0x5C \<in> set v then None else Some v))\<close>

fun all_some :: "'a option list \<Rightarrow> 'a list option" where
  "all_some [] = Some []"
| "all_some (None # xs) = None"
| "all_some (Some x # xs) = map_option ((#) x) (all_some xs)"

definition index_fragment :: "string \<Rightarrow> json_index" where
  "index_fragment body =
     (case strip_prefix ''['' body of
        None \<Rightarrow> JsonSyntax
      | Some r \<Rightarrow>
          (case strip_suffix '']'' r of
             None \<Rightarrow> JsonSyntax
           | Some inner \<Rightarrow>
               if inner = [] then JsonReleases []
               else (case all_some (map release_object (split_on (CHR '','') inner)) of
                       None \<Rightarrow> JsonSyntax
                     | Some vs \<Rightarrow> JsonReleases vs)))"

definition slash_join :: "path \<Rightarrow> string \<Rightarrow> path" where
  "slash_join d f = d @ ''/'' @ f"

definition node_env :: "(nat \<times> nat \<times> nat) env" where
  "node_env =
     \<lparr> validRange = (\<lambda>r. xyz_range r \<noteq> None),
       parseVersion = xyz_version,
       testRange = xyz_test,
       jsonIndex = index_fragment,
       pathJoin = slash_join,
       pathResolve = slash_join,
       cacheRoot = ''/opt/bundler/cache'',
       processPlatform = ''linux'',
       processArch = ''x64'' \<rparr>"

section \<open>The checksum manifest: \<^verbatim>\<open>parseShasumFile\<close>\<close>

subsection \<open>Lines: the stream of \<^verbatim>\<open>split()\<close>\<close>

text \<open>
  \<^verbatim>\<open>split()\<close> cuts the text at every match of \<^verbatim>\<open>/\r?\n/\<close> and emits each piece, the
  last one included: a line feed ends a line, and a carriage return right before it
  belongs to the separator. A carriage return elsewhere stays in its line.
\<close>

definition LF :: char where
  "LF = CHR 0x0A"

definition CR :: char where
  "CR = CHR 0x0D"

fun cons_first :: "char \<Rightarrow> string list \<Rightarrow> string list" where
  "cons_first c [] = [[c]]"
| "cons_first c (l # ls) = (c # l) # ls"

fun split_lines :: "string \<Rightarrow> string list" where
  "split_lines [] = [[]]"
| "split_lines [c] = (if c = LF then [[], []] else [[c]])"
| "split_lines (c # d # cs) =
     (if c = LF then [] # split_lines (d # cs)
      else if c = CR \<and> d = LF then [] # split_lines cs
      else cons_first c (split_lines (d # cs)))"

subsection \<open>One line: \<^verbatim>\<open>line.match(/^(.+?)\s+(.+?)\s*$/)\<close>\<close>

text \<open>
  The two character classes of the pattern, on code units below 256: \<^verbatim>\<open>\s\<close> is tab,
  line feed, vertical tab, form feed, carriage return, space and no-break space;
  \<^verbatim>\<open>.\<close> is everything but line feed and carriage return.
\<close>

definition is_space :: "char \<Rightarrow> bool" where
  "is_space c =
     (c = CHR 0x09 \<or> c = CHR 0x0A \<or> c = CHR 0x0B \<or> c = CHR 0x0C \<or> c = CHR 0x0D \<or>
      c = CHR 0x20 \<or> c = CHR 0xA0)"

definition is_dot :: "char \<Rightarrow> bool" where
  "is_dot c = (c \<noteq> CHR 0x0A \<and> c \<noteq> CHR 0x0D)"

text \<open>
  The matcher follows the backtracking order of the pattern, anchored at both ends.
  \<open>group2 g r\<close> is \<^verbatim>\<open>(.+?)\s*$\<close> on \<open>r\<close> with \<open>g\<close> already taken by the group: the lazy
  group takes one more character at a time and stops as soon as only white space
  is left. \<open>spaces j r\<close> is \<^verbatim>\<open>\s+\<close> giving back from \<open>j\<close> characters down to one.
  \<open>group1 g r\<close> is \<^verbatim>\<open>(.+?)\<close> at the start, again growing from the shortest.
\<close>

fun group2 :: "string \<Rightarrow> string \<Rightarrow> string option" where
  "group2 g [] = None"
| "group2 g (c # cs) =
     (if is_dot c
      then (if list_all is_space cs then Some (g @ [c]) else group2 (g @ [c]) cs)
      else None)"

fun spaces :: "nat \<Rightarrow> string \<Rightarrow> string option" where
  "spaces 0 r = None"
| "spaces (Suc j) r =
     (case group2 [] (drop (Suc j) r) of Some g \<Rightarrow> Some g | None \<Rightarrow> spaces j r)"

definition after_group1 :: "string \<Rightarrow> string option" where
  "after_group1 r = spaces (length (takeWhile is_space r)) r"

fun group1 :: "string \<Rightarrow> string \<Rightarrow> (string \<times> string) option" where
  "group1 g [] = None"
| "group1 g (c # cs) =
     (if is_dot c
      then (case after_group1 cs of
              Some g2 \<Rightarrow> Some (g @ [c], g2)
            | None \<Rightarrow> group1 (g @ [c]) cs)
      else None)"

text \<open>\<open>line_match line = Some (parts[1], parts[2])\<close>, and \<open>None\<close> for \<^verbatim>\<open>null\<close>.\<close>

definition line_match :: "string \<Rightarrow> (string \<times> string) option" where
  "line_match line = group1 [] line"

subsection \<open>The mapping\<close>

text \<open>
  The object \<^verbatim>\<open>shasums\<close> starts as \<^verbatim>\<open>{}\<close> and is used as a dictionary from file name
  to digest. The map holds its own properties. The assignment
  \<^verbatim>\<open>shasums[parts[2]] = parts[1]\<close> creates or overwrites one, except under the name
  \<open>__proto__\<close>: that name is an accessor every object inherits, and its setter ignores
  a string, so the object is left as it was. A lookup of a name the object does not own
  would fall through to what it inherits; the names this program looks up start with
  \<open>iojs-v\<close>, which no inherited name does.
  \<open>on_data\<close> is the handler of the \<^verbatim>\<open>data\<close> event.
\<close>

type_synonym shasums = "string \<rightharpoonup> string"

definition on_data :: "shasums \<Rightarrow> string \<Rightarrow> shasums" where
  "on_data shasums line =
     (case line_match line of
        None \<Rightarrow> shasums
      | Some (digest, name) \<Rightarrow>
          if name = ''__proto__'' then shasums else shasums(name \<mapsto> digest))"

definition parse_lines :: "string list \<Rightarrow> shasums" where
  "parse_lines ls = foldl on_data Map.empty ls"

definition parse_manifest :: "string \<Rightarrow> shasums" where
  "parse_manifest content = parse_lines (split_lines content)"

section \<open>The world: file system, network and what was done to them\<close>

text \<open>
  A session reads and writes the file system and the network. The world holds the
  files, which paths accept a write (permissions, free space), what each URL answers,
  and the trace of the operations performed so far, oldest first.

  A request either fails (with the bytes received before the failure) or brings a
  response: status code, \<^verbatim>\<open>content-type\<close> header when there is one, and body.
\<close>

datatype node = File string | Directory

datatype response = Failed string | Response nat "string option" string

datatype operation = Mkdirp path | HttpGet url | Exists path | ReadFile path | WriteFile path

record world =
  files :: "path \<rightharpoonup> node"
  writable :: "path \<Rightarrow> bool"
  net :: "url \<Rightarrow> response"
  trace :: "operation list"

definition log_op :: "operation \<Rightarrow> world \<Rightarrow> world" where
  "log_op x w = w\<lparr>trace := trace w @ [x]\<rparr>"

definition put :: "path \<Rightarrow> node \<Rightarrow> world \<Rightarrow> world" where
  "put p n w = w\<lparr>files := (files w)(p \<mapsto> n)\<rparr>"

text \<open>\<^verbatim>\<open>mkdirp(dir, cb)\<close>: an existing directory is not an error, a file in its place is.\<close>

definition mkdirp :: "path \<Rightarrow> world \<Rightarrow> (error + path) \<times> world" where
  "mkdirp dir w =
     (case files w dir of
        Some Directory \<Rightarrow> (Inr dir, log_op (Mkdirp dir) w)
      | Some (File content) \<Rightarrow> (Inl (FsError dir), log_op (Mkdirp dir) w)
      | None \<Rightarrow>
          if writable w dir then (Inr dir, put dir Directory (log_op (Mkdirp dir) w))
          else (Inl (FsError dir), log_op (Mkdirp dir) w))"

text \<open>\<^verbatim>\<open>fs.exists(p, cb)\<close>.\<close>

definition fs_exists :: "path \<Rightarrow> world \<Rightarrow> bool \<times> world" where
  "fs_exists p w = (files w p \<noteq> None, log_op (Exists p) w)"

text \<open>\<^verbatim>\<open>fs.createReadStream(p)\<close>, read to its end: the content, or an error event.\<close>

definition read_stream :: "path \<Rightarrow> world \<Rightarrow> (error + string) \<times> world" where
  "read_stream p w =
     (case files w p of
        Some (File content) \<Rightarrow> (Inr content, log_op (ReadFile p) w)
      | Some Directory \<Rightarrow> (Inl (FsError p), log_op (ReadFile p) w)
      | None \<Rightarrow> (Inl (FsError p), log_op (ReadFile p) w))"

text \<open>
  \<^verbatim>\<open>request(url).on("error", reject).pipe(fs.createWriteStream(p)).on("error", reject)\<close>
  up to the \<^verbatim>\<open>finish\<close> event. The status code of the response is not looked at. The
  result is the error handed to \<^verbatim>\<open>reject\<close>, or \<open>None\<close> when \<^verbatim>\<open>finish\<close> fires. A
  failed request leaves the bytes received so far in the file.
\<close>

definition pipe_request :: "url \<Rightarrow> path \<Rightarrow> world \<Rightarrow> error option \<times> world" where
  "pipe_request u p w =
     (let w1 = log_op (WriteFile p) (log_op (HttpGet u) w) in
      if \<not> writable w p \<or> files w p = Some Directory then (Some (FsError p), w1)
      else (case net w u of
              Failed partial \<Rightarrow> (Some (RequestFailed u), put p (File partial) w1)
            | Response status ctype body \<Rightarrow> (None, put p (File body) w1)))"

definition parseShasumFile :: "path \<Rightarrow> world \<Rightarrow> (error + shasums) \<times> world" where
  "parseShasumFile p w =
     (case read_stream p w of
        (Inl e, w1) \<Rightarrow> (Inl e, w1)
      | (Inr content, w1) \<Rightarrow> (Inr (parse_manifest content), w1))"

section \<open>\<^verbatim>\<open>validateShasum\<close>\<close>

definition validateShasum :: "path \<Rightarrow> string \<Rightarrow> world \<Rightarrow> (error + path) \<times> world" where
  "validateShasum p expectedShasum w =
     (case read_stream p w of
        (Inl e, w1) \<Rightarrow> (Inl e, w1)
      | (Inr content, w1) \<Rightarrow>
          (let shasum = shasum_of content in
           if shasum = expectedShasum then (Inr p, w1)
           else (Inl (ChecksumMismatch p expectedShasum shasum), w1)))"

section \<open>The promises of a session\<close>

text \<open>
  A settled promise is \<open>Inr\<close> its value or \<open>Inl\<close> its error. \<open>Inl UncaughtTypeError\<close>
  stands for a promise that never settles because its callback threw.
  Each \<^verbatim>\<open>new Promise(executor)\<close> of the constructor is one function from the world to
  the promise's outcome and the world after it; the constructor calls each of them
  once and hands the outcome, not the function, to the promises that depend on it.
  \<^verbatim>\<open>Promise.join\<close> rejects with the error of a rejected argument and calls its function
  when all arguments are fulfilled. Where two arguments are rejected with different
  errors, the model reports the one of the leftmost argument; the effects of the two
  artifact downloads, which Node interleaves, are taken one after the other.
\<close>

definition indexJson :: url where
  "indexJson = ''https://iojs.org/dist/index.json''"

definition downloadCacheDir_promise :: "'v env \<Rightarrow> world \<Rightarrow> (error + path) \<times> world" where
  "downloadCacheDir_promise E w = mkdirp (cacheRoot E) w"

definition index_callback :: "('v::linorder) env \<Rightarrow> string \<Rightarrow> response \<Rightarrow> error + string" where
  "index_callback E versionSelector r =
     (case r of
        Failed partial \<Rightarrow> Inl (RequestFailed indexJson)
      | Response statusCode ctype body \<Rightarrow>
          if statusCode \<noteq> 200 then Inl (UnexpectedStatus statusCode)
          else if ctype \<noteq> Some ''application/json'' then Inl (UnexpectedContentType ctype)
          else (case jsonIndex E body of
                  JsonSyntax \<Rightarrow> Inl JsonSyntaxError
                | JsonNotIndex \<Rightarrow> Inl UncaughtTypeError
                | JsonReleases index \<Rightarrow> resolveVersion E versionSelector index))"

definition version_promise :: "('v::linorder) env \<Rightarrow> string \<Rightarrow> world \<Rightarrow> (error + string) \<times> world" where
  "version_promise E versionSelector w =
     (index_callback E versionSelector (net w indexJson), log_op (HttpGet indexJson) w)"

definition installerFileName_of :: "string \<Rightarrow> string \<Rightarrow> string \<Rightarrow> string" where
  "installerFileName_of version platform arch =
     ''iojs-v'' @ version @ ''-'' @ platform @ ''-'' @ arch @ ''.tar.gz''"

definition srcFileName_of :: "string \<Rightarrow> string" where
  "srcFileName_of version = ''iojs-v'' @ version @ ''.tar.xz''"

definition fileUrl_of :: "string \<Rightarrow> string \<Rightarrow> url" where
  "fileUrl_of version fileName = ''https://iojs.org/dist/v'' @ version @ ''/'' @ fileName"

definition shasumsFileUrl_of :: "string \<Rightarrow> url" where
  "shasumsFileUrl_of version = ''https://iojs.org/dist/v'' @ version @ ''/SHASUMS256.txt''"

definition then_promise :: "error + 'a \<Rightarrow> ('a \<Rightarrow> 'b) \<Rightarrow> error + 'b" where
  "then_promise p f = (case p of Inl e \<Rightarrow> Inl e | Inr x \<Rightarrow> Inr (f x))"

definition join2 :: "error + 'a \<Rightarrow> error + 'b \<Rightarrow> ('a \<Rightarrow> 'b \<Rightarrow> 'c) \<Rightarrow> error + 'c" where
  "join2 p q f =
     (case p of Inl e \<Rightarrow> Inl e | Inr x \<Rightarrow> (case q of Inl e \<Rightarrow> Inl e | Inr y \<Rightarrow> Inr (f x y)))"

definition downloadCacheDirForVersion_promise ::
  "'v env \<Rightarrow> error + string \<Rightarrow> error + path \<Rightarrow> world \<Rightarrow> (error + path) \<times> world" where
  "downloadCacheDirForVersion_promise E versionP downloadCacheDirP w =
     (case versionP of
        Inl e \<Rightarrow> (Inl e, w)
      | Inr version \<Rightarrow>
          (case downloadCacheDirP of
             Inl e \<Rightarrow> (Inl e, w)
           | Inr downloadCacheDir \<Rightarrow> mkdirp (pathResolve E downloadCacheDir version) w))"

text \<open>The function \<^verbatim>\<open>Promise.join\<close> calls for \<^verbatim>\<open>this._shasums\<close> (lines 99 to 110).\<close>

definition shasums_body :: "'v env \<Rightarrow> path \<Rightarrow> string \<Rightarrow> world \<Rightarrow> (error + shasums) \<times> world" where
  "shasums_body E cacheDir version w =
     (let shasumsFileUrl = shasumsFileUrl_of version;
          cachedShasumFilePath = pathJoin E cacheDir ''SHASUM256.txt''
      in case fs_exists cachedShasumFilePath w of
           (True, w1) \<Rightarrow> parseShasumFile cachedShasumFilePath w1
         | (False, w1) \<Rightarrow>
             (case pipe_request shasumsFileUrl cachedShasumFilePath w1 of
                (Some e, w2) \<Rightarrow> (Inl e, w2)
              | (None, w2) \<Rightarrow> parseShasumFile cachedShasumFilePath w2))"

definition shasums_promise ::
  "'v env \<Rightarrow> error + path \<Rightarrow> error + string \<Rightarrow> world \<Rightarrow> (error + shasums) \<times> world" where
  "shasums_promise E cacheDirP versionP w =
     (case cacheDirP of
        Inl e \<Rightarrow> (Inl e, w)
      | Inr cacheDir \<Rightarrow>
          (case versionP of
             Inl e \<Rightarrow> (Inl e, w)
           | Inr version \<Rightarrow> shasums_body E cacheDir version w))"

section \<open>\<^verbatim>\<open>Installer.prototype._downloadAndCacheFile\<close>\<close>

text \<open>
  \<open>ensure\<close> is the function \<^verbatim>\<open>Promise.join\<close> calls with the four fulfilled values
  (lines 120 to 134); \<open>downloadAndCacheFile\<close> is the method, on the four promises.
\<close>

definition ensure ::
  "'v env \<Rightarrow> url \<Rightarrow> string \<Rightarrow> path \<Rightarrow> shasums \<Rightarrow> world \<Rightarrow> (error + path) \<times> world" where
  "ensure E fileUrl fileName cacheDir shasums w =
     (let cachedFilePath = pathJoin E cacheDir fileName in
      case shasums fileName of
        None \<Rightarrow> (Inl MissingChecksum, w)
      | Some expectedShasum \<Rightarrow>
          (case fs_exists cachedFilePath w of
             (True, w1) \<Rightarrow> validateShasum cachedFilePath expectedShasum w1
           | (False, w1) \<Rightarrow>
               (case pipe_request fileUrl cachedFilePath w1 of
                  (Some e, w2) \<Rightarrow> (Inl e, w2)
                | (None, w2) \<Rightarrow> validateShasum cachedFilePath expectedShasum w2)))"

definition downloadAndCacheFile ::
  "'v env \<Rightarrow> error + url \<Rightarrow> error + string \<Rightarrow> error + path \<Rightarrow> error + shasums \<Rightarrow> world \<Rightarrow>
     (error + path) \<times> world" where
  "downloadAndCacheFile E fileUrlP fileNameP cacheDirP shasumsP w =
     (case fileUrlP of
        Inl e \<Rightarrow> (Inl e, w)
      | Inr fileUrl \<Rightarrow>
          (case fileNameP of
             Inl e \<Rightarrow> (Inl e, w)
           | Inr fileName \<Rightarrow>
               (case cacheDirP of
                  Inl e \<Rightarrow> (Inl e, w)
                | Inr cacheDir \<Rightarrow>
                    (case shasumsP of
                       Inl e \<Rightarrow> (Inl e, w)
                     | Inr shasums \<Rightarrow> ensure E fileUrl fileName cacheDir shasums w))))"

section \<open>The constructor \<^verbatim>\<open>Installer\<close>\<close>

text \<open>
  \<^verbatim>\<open>extend({platform: process.platform, arch: process.arch}, opts)\<close>: an option that is
  given replaces the default.
\<close>

record opts =
  platform :: "string option"
  arch :: "string option"

definition opt_platform :: "'v env \<Rightarrow> opts \<Rightarrow> string" where
  "opt_platform E opts = (case platform opts of None \<Rightarrow> processPlatform E | Some p \<Rightarrow> p)"

definition opt_arch :: "'v env \<Rightarrow> opts \<Rightarrow> string" where
  "opt_arch E opts = (case arch opts of None \<Rightarrow> processArch E | Some a \<Rightarrow> a)"

text \<open>The object the constructor builds: its fields, each promise by its outcome.\<close>

record installer =
  targetPath :: path
  downloadCacheDir :: "error + path"
  version :: "error + string"
  installerFileName :: "error + string"
  installerFileUrl :: "error + url"
  srcFileName :: "error + string"
  srcFileUrl :: "error + url"
  downloadCacheDirForVersion :: "error + path"
  shasums :: "error + shasums"
  installerFile :: "error + path"
  srcFile :: "error + path"

text \<open>
  \<open>Inl\<close> is the exception the constructor throws; \<open>Inr\<close> is the object, with the
  world after every operation the constructor started has come to its end.
\<close>

definition Installer ::
  "('v::linorder) env \<Rightarrow> path \<Rightarrow> string \<Rightarrow> opts \<Rightarrow> world \<Rightarrow> (error + installer) \<times> world" where
  "Installer E tp versionSelector opts w =
     (if \<not> validRange E versionSelector then (Inl (InvalidSelector versionSelector), w)
      else
        (case downloadCacheDir_promise E w of (dcd, w1) \<Rightarrow>
        (case version_promise E versionSelector w1 of (ver, w2) \<Rightarrow>
        (let ifn = then_promise ver
                     (\<lambda>v. installerFileName_of v (opt_platform E opts) (opt_arch E opts));
             ifu = join2 ver ifn fileUrl_of;
             sfn = then_promise ver srcFileName_of;
             sfu = join2 ver sfn fileUrl_of
         in
        (case downloadCacheDirForVersion_promise E ver dcd w2 of (dcdv, w3) \<Rightarrow>
        (case shasums_promise E dcdv ver w3 of (sums, w4) \<Rightarrow>
        (case downloadAndCacheFile E ifu ifn dcdv sums w4 of (ifile, w5) \<Rightarrow>
        (case downloadAndCacheFile E sfu sfn dcdv sums w5 of (sfile, w6) \<Rightarrow>
          (Inr \<lparr> targetPath = tp,
                 downloadCacheDir = dcd,
                 version = ver,
                 installerFileName = ifn,
                 installerFileUrl = ifu,
                 srcFileName = sfn,
                 srcFileUrl = sfu,
                 downloadCacheDirForVersion = dcdv,
                 shasums = sums,
                 installerFile = ifile,
                 srcFile = sfile \<rparr>, w6)))))))))"

section \<open>\<^verbatim>\<open>Installer.prototype.install\<close>\<close>

text \<open>
  \<^verbatim>\<open>Installation.js\<close> is not among the sources at hand. \<^verbatim>\<open>install\<close> calls its
  constructor with the version and nothing else, so the object is the constructor
  applied to that argument; the constructor and the callback are taken not to throw.
  \<^verbatim>\<open>installPath\<close> is a parameter the method never reads.
  The callback is called once: \<open>CbError err\<close> is \<^verbatim>\<open>cb(err)\<close>, \<open>CbOk i\<close> is
  \<^verbatim>\<open>cb(null, i)\<close>. The result is \<open>None\<close> when it is never called.
\<close>

datatype installation = Installation string

datatype callback = CbError error | CbOk installation

definition rejected :: "error \<Rightarrow> callback option" where
  "rejected e = (if e = UncaughtTypeError then None else Some (CbError e))"

definition install :: "installer \<Rightarrow> path \<Rightarrow> callback option" where
  "install this installPath =
     (case version this of
        Inl e \<Rightarrow> rejected e
      | Inr v \<Rightarrow>
          (case installerFile this of
             Inl e \<Rightarrow> rejected e
           | Inr installerPath \<Rightarrow>
               (case srcFile this of
                  Inl e \<Rightarrow> rejected e
                | Inr srcPath \<Rightarrow> Some (CbOk (Installation v)))))"

section \<open>Predicates and concrete inputs used in the statements\<close>

text \<open>
  A digest field: not empty, no white space. A file-name field: not empty, it neither
  starts nor ends with white space, and has no line terminator inside.
\<close>

definition digest_field :: "string \<Rightarrow> bool" where
  "digest_field d = (d \<noteq> [] \<and> list_all (\<lambda>c. \<not> is_space c) d)"

definition name_field :: "string \<Rightarrow> bool" where
  "name_field f = (f \<noteq> [] \<and> \<not> is_space (hd f) \<and> \<not> is_space (last f) \<and> list_all is_dot f)"

definition names_file :: "string \<Rightarrow> string \<Rightarrow> bool" where
  "names_file f line = (case line_match line of None \<Rightarrow> False | Some (d, n) \<Rightarrow> n = f)"

text \<open>A line as it leaves \<^verbatim>\<open>split()\<close>: without the carriage return that ended it.\<close>

definition chomp_cr :: "string \<Rightarrow> string" where
  "chomp_cr a = (if a \<noteq> [] \<and> last a = CR then butlast a else a)"

text \<open>
  The bytes a hex string denotes, whatever the case of its letters; \<open>None\<close> when it
  is not a hex string.
\<close>

definition unhex_digit :: "char \<Rightarrow> nat option" where
  "unhex_digit c =
     (case index_from 0 c ''0123456789abcdef'' of
        Some d \<Rightarrow> Some d
      | None \<Rightarrow> index_from 10 c ''ABCDEF'')"

fun unhex :: "string \<Rightarrow> nat list option" where
  "unhex [] = Some []"
| "unhex [c] = None"
| "unhex (c # d # cs) =
     (case unhex_digit c of
        None \<Rightarrow> None
      | Some h \<Rightarrow>
          (case unhex_digit d of
             None \<Rightarrow> None
           | Some l \<Rightarrow> map_option ((#) (16 * h + l)) (unhex cs)))"

text \<open>The operations a session has added to the trace of the world it started in.\<close>

definition performed :: "world \<Rightarrow> world \<Rightarrow> operation list" where
  "performed w w' = drop (length (trace w)) (trace w')"

text \<open>
  Concrete inputs. \<open>empty_digest\<close> is the SHA-256 of the empty file and \<open>abc_digest\<close>
  the one of the three bytes \<open>abc\<close>. The network \<open>net0\<close> serves an index of three
  releases, the manifest of release 1.3.0 and three artifacts of no bytes; \<open>world0\<close>
  is a machine with nothing cached. In \<open>world_hit\<close> the artifact \<open>foo.tar.gz\<close> is
  already in the cache directory of a version, as an empty file.
\<close>

definition empty_digest :: string where
  "empty_digest = ''e3b0c44298fc1c149afbf4c8996fb92427ae41e4649b934ca495991b7852b855''"

definition upper_digest :: string where
  "upper_digest = ''E3B0C44298FC1C149AFBF4C8996FB92427AE41E4649B934CA495991B7852B855''"

definition abc_digest :: string where
  "abc_digest = ''ba7816bf8f01cfea414140de5dae2223b00361a396177a9cb410ff61f20015ad''"

definition index0 :: string where
  \<open>index0 = ''[{"version":"v1.2.0"},{"version":"v1.3.0"},{"version":"v1.2.5"}]''\<close>

definition manifest0 :: string where
  "manifest0 =
     empty_digest @ ''  iojs-v1.3.0-linux-x64.tar.gz'' @ [LF] @
     empty_digest @ ''  iojs-v1.3.0-darwin-x64.tar.gz'' @ [LF] @
     empty_digest @ ''  iojs-v1.3.0.tar.xz'' @ [LF]"

definition net0 :: "url \<Rightarrow> response" where
  "net0 u =
     (if u = ''https://iojs.org/dist/index.json''
      then Response 200 (Some ''application/json'') index0
      else if u = ''https://iojs.org/dist/v1.3.0/SHASUMS256.txt''
      then Response 200 (Some ''text/plain'') manifest0
      else if u = ''https://iojs.org/dist/v1.3.0/iojs-v1.3.0-linux-x64.tar.gz'' \<or>
              u = ''https://iojs.org/dist/v1.3.0/iojs-v1.3.0-darwin-x64.tar.gz'' \<or>
              u = ''https://iojs.org/dist/v1.3.0/iojs-v1.3.0.tar.xz''
      then Response 200 None []
      else Failed [])"

definition world0 :: world where
  "world0 = \<lparr> files = Map.empty, writable = (\<lambda>p. True), net = net0, trace = [] \<rparr>"

definition world_hit :: world where
  "world_hit =
     \<lparr> files = [''/opt/bundler/cache/1.3.0/foo.tar.gz'' \<mapsto> File []],
       writable = (\<lambda>p. True), net = (\<lambda>u. Failed []), trace = [] \<rparr>"

definition default_opts :: opts where
  "default_opts = \<lparr> platform = None, arch = None \<rparr>"

definition darwin_opts :: opts where
  "darwin_opts = \<lparr> platform = Some ''darwin'', arch = None \<rparr>"

text \<open>
  What the walk of \<open>pick\<close> keeps, for any value kept before it starts: nothing when
  nothing was seen, else an entry seen that no entry seen exceeds.
\<close>

definition kept_max :: "('v::linorder) env \<Rightarrow> string set \<Rightarrow> string option \<Rightarrow> bool" where
  "kept_max E seen mx =
     (case mx of
        None \<Rightarrow> seen = {}
      | Some m \<Rightarrow> m \<in> seen \<and> (\<forall>x\<in>seen. version_le E x m))"

text \<open>
  An index of versions: every entry, once stripped, is a version or is empty.
  \<open>satisfying E S v\<close>: \<^verbatim>\<open>satisfies(v, S)\<close> returns true.
\<close>

definition index_of_versions :: "'v env \<Rightarrow> string list \<Rightarrow> bool" where
  "index_of_versions E index =
     list_all (\<lambda>x. strip_v x = [] \<or> parseVersion E (strip_v x) \<noteq> None) index"

definition satisfying :: "'v env \<Rightarrow> string \<Rightarrow> string \<Rightarrow> bool" where
  "satisfying E rng v = (satisfies E v rng = Inr True)"

text \<open>
  What a session on \<open>world0\<close> with the selector \<open>^1.2.0\<close> comes to: the object the
  constructor builds, for the platform \<open>pl\<close> and the architecture x64, and the world it
  leaves behind.
\<close>

definition manifest_map0 :: shasums where
  "manifest_map0 =
     [''iojs-v1.3.0-linux-x64.tar.gz'' \<mapsto> empty_digest,
      ''iojs-v1.3.0-darwin-x64.tar.gz'' \<mapsto> empty_digest,
      ''iojs-v1.3.0.tar.xz'' \<mapsto> empty_digest]"

definition session_installer :: "string \<Rightarrow> installer" where
  "session_installer pl =
     \<lparr> targetPath = ''/target'',
       downloadCacheDir = Inr ''/opt/bundler/cache'',
       version = Inr ''1.3.0'',
       installerFileName = Inr (''iojs-v1.3.0-'' @ pl @ ''-x64.tar.gz''),
       installerFileUrl = Inr (''https://iojs.org/dist/v1.3.0/iojs-v1.3.0-'' @ pl @ ''-x64.tar.gz''),
       srcFileName = Inr ''iojs-v1.3.0.tar.xz'',
       srcFileUrl = Inr ''https://iojs.org/dist/v1.3.0/iojs-v1.3.0.tar.xz'',
       downloadCacheDirForVersion = Inr ''/opt/bundler/cache/1.3.0'',
       shasums = Inr manifest_map0,
       installerFile = Inr (''/opt/bundler/cache/1.3.0/iojs-v1.3.0-'' @ pl @ ''-x64.tar.gz''),
       srcFile = Inr ''/opt/bundler/cache/1.3.0/iojs-v1.3.0.tar.xz'' \<rparr>"

definition session_trace :: "string \<Rightarrow> operation list" where
  "session_trace pl =
     [Mkdirp ''/opt/bundler/cache'',
      HttpGet ''https://iojs.org/dist/index.json'',
      Mkdirp ''/opt/bundler/cache/1.3.0'',
      Exists ''/opt/bundler/cache/1.3.0/SHASUM256.txt'',
      HttpGet ''https://iojs.org/dist/v1.3.0/SHASUMS256.txt'',
      WriteFile ''/opt/bundler/cache/1.3.0/SHASUM256.txt'',
      ReadFile ''/opt/bundler/cache/1.3.0/SHASUM256.txt'',
      Exists (''/opt/bundler/cache/1.3.0/iojs-v1.3.0-'' @ pl @ ''-x64.tar.gz''),
      HttpGet (''https://iojs.org/dist/v1.3.0/iojs-v1.3.0-'' @ pl @ ''-x64.tar.gz''),
      WriteFile (''/opt/bundler/cache/1.3.0/iojs-v1.3.0-'' @ pl @ ''-x64.tar.gz''),
      ReadFile (''/opt/bundler/cache/1.3.0/iojs-v1.3.0-'' @ pl @ ''-x64.tar.gz''),
      Exists ''/opt/bundler/cache/1.3.0/iojs-v1.3.0.tar.xz'',
      HttpGet ''https://iojs.org/dist/v1.3.0/iojs-v1.3.0.tar.xz'',
      WriteFile ''/opt/bundler/cache/1.3.0/iojs-v1.3.0.tar.xz'',
      ReadFile ''/opt/bundler/cache/1.3.0/iojs-v1.3.0.tar.xz'']"

definition session_world :: "string \<Rightarrow> world" where
  "session_world pl =
     \<lparr> files =
         [''/opt/bundler/cache'' \<mapsto> Directory,
          ''/opt/bundler/cache/1.3.0'' \<mapsto> Directory,
          ''/opt/bundler/cache/1.3.0/SHASUM256.txt'' \<mapsto> File manifest0,
          ''/opt/bundler/cache/1.3.0/iojs-v1.3.0-'' @ pl @ ''-x64.tar.gz'' \<mapsto> File [],
          ''/opt/bundler/cache/1.3.0/iojs-v1.3.0.tar.xz'' \<mapsto> File []],
       writable = (\<lambda>p. True), net = net0, trace = session_trace pl \<rparr>"

text \<open>The operations that concern one cached file: its path and the URL it comes from.\<close>

definition file_ops :: "path \<Rightarrow> url \<Rightarrow> operation set" where
  "file_ops p u = {Exists p, HttpGet u, WriteFile p, ReadFile p}"

section \<open>Evaluating the digest\<close>

lemma schedule_numeral:
  "schedule (numeral k) ws =
     schedule (pred_numeral k)
       (add32 (add32 (ssig1 (ws ! 1)) (ws ! 6)) (add32 (ssig0 (ws ! 14)) (ws ! 15)) # ws)"
  by (simp add: numeral_eq_Suc)

lemma replicate_numeral: "replicate (numeral k) x = x # replicate (pred_numeral k) x"
  by (simp add: numeral_eq_Suc)

lemma upt_numeral:
  "[i..<numeral k] = (if i \<le> pred_numeral k then [i..<pred_numeral k] @ [pred_numeral k] else [])"
  by (simp add: numeral_eq_Suc)

lemma blocks_numeral: "blocks (numeral k) bs = take 64 bs # blocks (pred_numeral k) (drop 64 bs)"
  by (simp add: numeral_eq_Suc)

lemma pad_empty: "pad [] = 128 # replicate 63 0"
  by (simp add: pad_def be_bytes_def upt_numeral replicate_numeral)

lemma be32_empty: "be32 (128 # replicate 63 0) = 2147483648 # replicate 15 0"
  by (simp add: replicate_numeral)

lemma schedule_empty:
  "schedule 48 (rev (2147483648 # replicate 15 0)) =
    [996066459, 1153231965, 1581412744, 3704256008, 4161330627, 133517113,
     1967544444, 43741191, 3526495142, 907775968, 195877528, 369937616,
     30329261, 1008022316, 748767245, 3741240933, 1575308336, 3297584367,
     614207615, 3286092305, 2975250741, 1562224585, 62000258, 2561075048,
     2165675682, 2813755136, 4274181962, 1904000662, 2742808854, 109604294,
     676112230, 3287351444, 3374850048, 3594910044, 337794312, 3592562048,
     1711282176, 1451269, 4235264, 1476919296, 2147483648, 84448578,
     0, 570427392, 0, 2117632, 0, 2147483648,
     0, 0, 0, 0, 0, 0,
     0, 0, 0, 0, 0, 0,
     0, 0, 0, 2147483648]"
  by (simp add: schedule_numeral replicate_numeral ssig0_def ssig1_def rotr_def shr_def add32_def)

lemma compress_empty:
  "compress H256 (128 # replicate 63 0) =
    [3820012610, 2566659092, 2600203464, 2574235940, 665731556, 1687917388,
     2761267483, 2018687061]"
  unfolding compress_def be32_empty schedule_empty
  by (simp add: H256_def K256_def to_state_def T1_def T2_def bsig0_def bsig1_def ch_def maj_def
      rotr_def add32_def)

lemma sha256_empty:
  "hex (sha256 []) = ''e3b0c44298fc1c149afbf4c8996fb92427ae41e4649b934ca495991b7852b855''"
  unfolding sha256_def pad_empty
  by (simp add: blocks_numeral compress_empty be_bytes_def upt_numeral hex_def hexdigit_def hex_digits_def)

lemma shasum_of_empty:
  "shasum_of [] = ''e3b0c44298fc1c149afbf4c8996fb92427ae41e4649b934ca495991b7852b855''"
  using sha256_empty by (simp add: shasum_of_def)

text \<open>A second test vector of the standard: the three bytes \<open>abc\<close>.\<close>

lemma pad_abc: "pad [97, 98, 99] = 97 # 98 # 99 # 128 # replicate 59 0 @ [24]"
  by (simp add: pad_def be_bytes_def upt_numeral replicate_numeral)

lemma be32_abc:
  "be32 (97 # 98 # 99 # 128 # replicate 59 0 @ [24]) = 1633837952 # replicate 14 0 @ [24]"
  by (simp add: replicate_numeral)

lemma schedule_abc:
  "schedule 48 (rev (1633837952 # replicate 14 0 @ [24])) =
    [313650667, 4004225740, 1720397816, 2755645205, 2025622859, 2682456414,
     3957764664, 4015503821, 2987358873, 344409900, 3256115900, 2226839261,
     2845390439, 3118885940, 3430291419, 4215179723, 106709978, 2049510749,
     2215296807, 206005234, 657669027, 1042573945, 4037431130, 2672279444,
     610538786, 2483675966, 1924104970, 176896406, 4043988066, 2952069057,
     996719219, 2482346367, 3552024379, 1881225380, 3968280267, 2636160359,
     845560923, 3854317833, 3073800610, 3357629466, 3806512014, 316456923,
     25426944, 1050508152, 1610613702, 2108187653, 983040, 1633837952,
     24, 0, 0, 0, 0, 0,
     0, 0, 0, 0, 0, 0,
     0, 0, 0, 1633837952]"
  by (simp add: schedule_numeral replicate_numeral ssig0_def ssig1_def rotr_def shr_def add32_def)

lemma compress_abc:
  "compress H256 (97 # 98 # 99 # 128 # replicate 59 0 @ [24]) =
    [3128432319, 2399260650, 1094795486, 1571693091, 2953011619, 2518121116,
     3021012833, 4060091821]"
  unfolding compress_def be32_abc schedule_abc
  by (simp add: H256_def K256_def to_state_def T1_def T2_def bsig0_def bsig1_def ch_def maj_def
      rotr_def add32_def)

lemma sha256_abc:
  "hex (sha256 [97, 98, 99]) = ''ba7816bf8f01cfea414140de5dae2223b00361a396177a9cb410ff61f20015ad''"
  unfolding sha256_def pad_abc
  by (simp add: blocks_numeral compress_abc be_bytes_def upt_numeral hex_def hexdigit_def
      hex_digits_def)

lemma shasum_of_abc:
  "shasum_of ''abc'' = ''ba7816bf8f01cfea414140de5dae2223b00361a396177a9cb410ff61f20015ad''"
  using sha256_abc by (simp add: shasum_of_def)

section \<open>Version resolution\<close>

lemmas env_defs =
  node_env_def slash_join_def index_fragment_def release_object_def strip_suffix_def
  xyz_version_def xyz_range_def xyz_test_def decimal_def digit_val_def
  resolveVersion_def maxSatisfying_def pick_def satisfies_def version_lt_def version_le_def

lemma satisfying_parses: "satisfying E S v \<Longrightarrow> parseVersion E v \<noteq> None"
  by (auto simp: satisfying_def satisfies_def split: if_splits option.splits)

lemma satisfies_Inl: "satisfies E v S = Inl e \<Longrightarrow> e = UncaughtTypeError"
  by (auto simp: satisfies_def split: if_splits option.splits)

lemma version_le_refl: "parseVersion E v \<noteq> None \<Longrightarrow> version_le E v v"
  by (auto simp: version_le_def split: option.splits)

lemma version_le_trans: "version_le E a b \<Longrightarrow> version_le E b c \<Longrightarrow> version_le E a c"
  by (auto simp: version_le_def split: option.splits)

lemma version_lt_le: "version_lt E a b \<Longrightarrow> version_le E a b"
  by (auto simp: version_lt_def version_le_def split: option.splits)

lemma not_version_lt_le:
  "parseVersion E a \<noteq> None \<Longrightarrow> parseVersion E b \<noteq> None \<Longrightarrow> \<not> version_lt E a b \<Longrightarrow>
     version_le E b a"
  by (auto simp: version_lt_def version_le_def split: option.splits)

lemma kept_max_pick:
  assumes "kept_max E seen mx" and "parseVersion E v \<noteq> None"
    and "\<forall>x\<in>seen. parseVersion E x \<noteq> None"
  shows "kept_max E (insert v seen) (pick E mx v)"
proof (cases mx)
  case None
  with assms show ?thesis
    by (auto simp: kept_max_def pick_def version_le_refl)
next
  case (Some m)
  with assms(1) have m: "m \<in> seen" and le: "\<forall>x\<in>seen. version_le E x m"
    by (auto simp: kept_max_def)
  show ?thesis
  proof (cases "version_lt E m v")
    case True
    then have "pick E mx v = Some v" by (simp add: pick_def Some)
    moreover have "\<forall>x\<in>seen. version_le E x v"
      using le True by (auto intro: version_le_trans version_lt_le)
    ultimately show ?thesis using assms(2) by (auto simp: kept_max_def version_le_refl)
  next
    case False
    then have p: "pick E mx v = Some m" by (simp add: pick_def Some)
    have "version_le E v m"
      using False assms(2,3) m by (auto intro: not_version_lt_le)
    then show ?thesis using m le p by (auto simp: kept_max_def)
  qed
qed

lemma kept_max_foldl:
  "kept_max E seen mx \<Longrightarrow> \<forall>x\<in>seen \<union> set vs. parseVersion E x \<noteq> None \<Longrightarrow>
     kept_max E (seen \<union> set vs) (foldl (pick E) mx vs)"
proof (induction vs arbitrary: seen mx)
  case Nil
  then show ?case by simp
next
  case (Cons v vs)
  have "kept_max E (insert v seen) (pick E mx v)"
    using Cons.prems by (intro kept_max_pick) auto
  then have "kept_max E (insert v seen \<union> set vs) (foldl (pick E) (pick E mx v) vs)"
    using Cons.prems by (intro Cons.IH) auto
  then show ?case by simp
qed

text \<open>The filter, on a list of versions and on a list with a string that is not one.\<close>

lemma filter_satisfying_versions:
  "\<forall>v\<in>set vs. v = [] \<or> parseVersion E v \<noteq> None \<Longrightarrow>
     filter_satisfying E S vs = Inr (filter (satisfying E S) vs)"
proof (induction vs)
  case Nil
  then show ?case by simp
next
  case (Cons v vs)
  then have "filter_satisfying E S vs = Inr (filter (satisfying E S) vs)" by simp
  moreover have "satisfies E v S = Inr (satisfying E S v)"
    using Cons.prems by (auto simp: satisfies_def satisfying_def split: option.splits)
  ultimately show ?case by simp
qed

lemma filter_satisfying_throws:
  "validRange E S \<Longrightarrow> \<exists>v\<in>set vs. v \<noteq> [] \<and> parseVersion E v = None \<Longrightarrow>
     filter_satisfying E S vs = Inl UncaughtTypeError"
proof (induction vs)
  case Nil
  then show ?case by simp
next
  case (Cons v vs)
  show ?case
  proof (cases "v \<noteq> [] \<and> parseVersion E v = None")
    case True
    with Cons.prems(1) have "satisfies E v S = Inl UncaughtTypeError"
      by (simp add: satisfies_def)
    then show ?thesis by simp
  next
    case False
    with Cons.prems have "filter_satisfying E S vs = Inl UncaughtTypeError"
      by (intro Cons.IH) auto
    then show ?thesis by (auto split: sum.splits dest: satisfies_Inl)
  qed
qed

lemma maxSatisfying_versions:
  assumes "\<forall>v\<in>set vs. v = [] \<or> parseVersion E v \<noteq> None"
  shows "\<exists>mx. maxSatisfying E vs S = Inr mx \<and> kept_max E {v \<in> set vs. satisfying E S v} mx"
proof -
  have "kept_max E ({} \<union> set (filter (satisfying E S) vs))
          (foldl (pick E) None (filter (satisfying E S) vs))"
    by (rule kept_max_foldl) (auto simp: kept_max_def dest: satisfying_parses)
  then show ?thesis
    by (simp add: maxSatisfying_def filter_satisfying_versions [OF assms])
qed

text \<open>
  Claim C1. On an index of versions, version resolution strips one leading \<open>v\<close> from
  every entry and gives the result of \<open>maxSatisfying\<close> on the stripped list. It succeeds
  with a stripped entry that satisfies the selector and that no satisfying stripped entry
  exceeds in precedence; it fails, with \<open>NoSatisfyingVersion\<close>, exactly when no stripped
  entry satisfies the selector. For the index 1.2.0, 1.3.0, 1.2.5 and the selector
  \<open>^1.2.0\<close> the resolved version is 1.3.0. An index with an entry that is not a
  version is not in the claim: for a valid selector, resolution then ends with the
  exception of \<open>maxSatisfying\<close>, neither a version nor \<open>NoSatisfyingVersion\<close>.
\<close>

theorem resolveVersion_highest_satisfying:
  fixes E :: "('v::linorder) env"
  shows
    "(index_of_versions E I \<longrightarrow>
        (case resolveVersion E S I of
           Inl e \<Rightarrow> e = NoSatisfyingVersion S \<and> (\<forall>x\<in>set I. \<not> satisfying E S (strip_v x))
         | Inr v \<Rightarrow>
             v \<in> set (map strip_v I) \<and> satisfying E S v \<and>
             (\<forall>x\<in>set I. satisfying E S (strip_v x) \<longrightarrow> version_le E (strip_v x) v))) \<and>
     (validRange E S \<and> \<not> index_of_versions E I \<longrightarrow>
        resolveVersion E S I = Inl UncaughtTypeError) \<and>
     resolveVersion node_env ''^1.2.0'' [''1.2.0'', ''1.3.0'', ''1.2.5''] = Inr ''1.3.0''"
proof (intro conjI impI)
  assume "index_of_versions E I"
  then have "\<forall>v\<in>set (map strip_v I). v = [] \<or> parseVersion E v \<noteq> None"
    by (auto simp: index_of_versions_def list_all_iff)
  from maxSatisfying_versions [OF this, of S] obtain mx where
    m: "maxSatisfying E (map strip_v I) S = Inr mx" and
    k: "kept_max E {v \<in> set (map strip_v I). satisfying E S v} mx" by auto
  show "case resolveVersion E S I of
           Inl e \<Rightarrow> e = NoSatisfyingVersion S \<and> (\<forall>x\<in>set I. \<not> satisfying E S (strip_v x))
         | Inr v \<Rightarrow>
             v \<in> set (map strip_v I) \<and> satisfying E S v \<and>
             (\<forall>x\<in>set I. satisfying E S (strip_v x) \<longrightarrow> version_le E (strip_v x) v)"
  proof (cases mx)
    case None
    with k have "{v \<in> set (map strip_v I). satisfying E S v} = {}" by (simp add: kept_max_def)
    then have "\<forall>x\<in>set I. \<not> satisfying E S (strip_v x)" by auto
    then show ?thesis by (simp add: resolveVersion_def m None)
  next
    case (Some v)
    with k have "v \<in> set (map strip_v I)" and "satisfying E S v"
      and "\<forall>x\<in>set I. satisfying E S (strip_v x) \<longrightarrow> version_le E (strip_v x) v"
      by (auto simp: kept_max_def)
    then show ?thesis by (simp add: resolveVersion_def m Some)
  qed
next
  assume "validRange E S \<and> \<not> index_of_versions E I"
  then have v: "validRange E S"
    and "\<exists>v\<in>set (map strip_v I). v \<noteq> [] \<and> parseVersion E v = None"
    by (auto simp: index_of_versions_def list_all_iff)
  then have "filter_satisfying E S (map strip_v I) = Inl UncaughtTypeError"
    by (intro filter_satisfying_throws)
  then show "resolveVersion E S I = Inl UncaughtTypeError"
    by (simp add: resolveVersion_def maxSatisfying_def)
next
  show "resolveVersion node_env ''^1.2.0'' [''1.2.0'', ''1.3.0'', ''1.2.5''] = Inr ''1.3.0''"
    by (simp add: env_defs)
qed

theorem resolveVersion_highest_satisfying_witness:
  "index_of_versions node_env [''v1.2.0'', ''v1.3.0'', ''v1.2.5'', ''v2.0.0''] \<and>
   resolveVersion node_env ''^1.2.0'' [''v1.2.0'', ''v1.3.0'', ''v1.2.5'', ''v2.0.0''] = Inr ''1.3.0'' \<and>
   satisfying node_env ''^1.2.0'' ''1.3.0'' \<and>
   version_le node_env (strip_v ''v1.2.5'') ''1.3.0'' \<and>
   resolveVersion node_env ''^99.0.0'' [''v1.2.0''] = Inl (NoSatisfyingVersion ''^99.0.0'') \<and>
   \<not> satisfying node_env ''^99.0.0'' (strip_v ''v1.2.0'') \<and>
   \<not> index_of_versions node_env [''v1.2.0'', ''nightly''] \<and>
   resolveVersion node_env ''^1.2.0'' [''v1.2.0'', ''nightly''] = Inl UncaughtTypeError"
  using resolveVersion_highest_satisfying
          [where E = node_env and S = "''^1.2.0''"
             and I = "[''v1.2.0'', ''v1.3.0'', ''v1.2.5'', ''v2.0.0'']"]
        resolveVersion_highest_satisfying
          [where E = node_env and S = "''^99.0.0''" and I = "[''v1.2.0'']"]
        resolveVersion_highest_satisfying
          [where E = node_env and S = "''^1.2.0''" and I = "[''v1.2.0'', ''nightly'']"]
  by (simp add: env_defs index_of_versions_def satisfying_def)

section \<open>The checksum manifest\<close>

lemma not_space_is_dot: "\<not> is_space c \<Longrightarrow> is_dot c"
  by (auto simp: is_space_def is_dot_def)

lemma group2_name:
  assumes "f \<noteq> []" and "\<not> is_space (last f)" and "list_all is_dot f" and "list_all is_space tr"
  shows "group2 g (f @ tr) = Some (g @ f)"
  using assms
proof (induction f arbitrary: g)
  case Nil
  then show ?case by simp
next
  case (Cons c cs)
  show ?case
  proof (cases "cs = []")
    case True
    with Cons.prems show ?thesis by simp
  next
    case False
    with Cons.prems have "last cs \<in> set cs" and "\<not> is_space (last cs)" by auto
    then have "\<not> list_all is_space (cs @ tr)" by (auto simp: list_all_iff)
    moreover have "group2 (g @ [c]) (cs @ tr) = Some ((g @ [c]) @ cs)"
      using Cons.prems False by (intro Cons.IH) auto
    ultimately show ?thesis using Cons.prems by simp
  qed
qed

lemma after_group1_fields:
  assumes "ws \<noteq> []" and "list_all is_space ws" and "name_field f" and "list_all is_space tr"
  shows "after_group1 (ws @ f @ tr) = Some f"
proof -
  from assms(3) obtain c cs where f: "f = c # cs" and c: "\<not> is_space c"
    by (cases f) (auto simp: name_field_def)
  have tw: "takeWhile is_space (ws @ f @ tr) = ws"
    using assms(2) c by (simp add: f takeWhile_append2 list_all_iff)
  obtain j where j: "length ws = Suc j" using assms(1) by (cases ws) auto
  have "group2 [] (f @ tr) = Some ([] @ f)"
    using assms(3,4) by (intro group2_name) (auto simp: name_field_def)
  then have "spaces (Suc j) (ws @ f @ tr) = Some f"
    using j by simp
  then show ?thesis by (simp add: after_group1_def tw j)
qed

lemma after_group1_no_space: "\<not> is_space c \<Longrightarrow> after_group1 (c # r) = None"
  by (simp add: after_group1_def)

lemma group1_fields:
  assumes "digest_field d" and "ws \<noteq> []" and "list_all is_space ws" and "name_field f"
    and "list_all is_space tr"
  shows "group1 g (d @ ws @ f @ tr) = Some (g @ d, f)"
  using assms(1)
proof (induction d arbitrary: g)
  case Nil
  then show ?case by (simp add: digest_field_def)
next
  case (Cons c cs)
  then have c: "\<not> is_space c" by (simp add: digest_field_def)
  show ?case
  proof (cases cs)
    case Nil
    then show ?thesis
      using c after_group1_fields [OF assms(2-5)] by (simp add: not_space_is_dot)
  next
    case (Cons c' cs')
    with Cons.prems have "\<not> is_space c'" and d: "digest_field cs"
      by (auto simp: digest_field_def)
    then have "after_group1 (cs @ ws @ f @ tr) = None"
      by (simp add: Cons after_group1_no_space)
    moreover have "group1 (g @ [c]) (cs @ ws @ f @ tr) = Some ((g @ [c]) @ cs, f)"
      by (rule Cons.IH [OF d])
    ultimately show ?thesis using c by (simp add: not_space_is_dot)
  qed
qed

lemma line_match_fields:
  assumes "digest_field d" and "ws \<noteq> []" and "list_all is_space ws" and "name_field f"
    and "list_all is_space tr"
  shows "line_match (d @ ws @ f @ tr) = Some (d, f)"
  using group1_fields [OF assms, of "[]"] by (simp add: line_match_def)

lemma after_group1_all_dense: "list_all (\<lambda>c. \<not> is_space c) r \<Longrightarrow> after_group1 r = None"
  by (cases r) (simp_all add: after_group1_def)

lemma group1_no_space: "list_all (\<lambda>c. \<not> is_space c) l \<Longrightarrow> group1 g l = None"
  by (induction l arbitrary: g) (simp_all add: after_group1_all_dense)

lemma line_match_no_space: "list_all (\<lambda>c. \<not> is_space c) l \<Longrightarrow> line_match l = None"
  by (simp add: line_match_def group1_no_space)

lemma line_match_short_blank:
  assumes "list_all is_space l" and "length l \<le> 2"
  shows "line_match l = None"
proof (cases l)
  case Nil
  then show ?thesis by (simp add: line_match_def)
next
  case a: (Cons a as)
  show ?thesis
  proof (cases as)
    case Nil
    then show ?thesis by (simp add: a line_match_def after_group1_def)
  next
    case (Cons b bs)
    with a assms have "bs = []" and "is_space b" by auto
    then show ?thesis by (simp add: a Cons line_match_def after_group1_def)
  qed
qed

lemma drop_to_last: "length r = Suc k \<Longrightarrow> drop k r = [last r]"
proof (induction r arbitrary: k)
  case Nil
  then show ?case by simp
next
  case (Cons x r)
  then show ?case by (cases k) auto
qed

lemma line_match_long_blank:
  assumes "list_all is_space l" and "list_all is_dot l" and "3 \<le> length l"
  shows "line_match l = Some ([hd l], [last l])"
proof -
  from assms(3) obtain a r where l: "l = a # r" by (cases l) auto
  with assms(3) obtain k where k: "length r = Suc (Suc k)"
    by (cases r; cases "tl r") auto
  have sp: "takeWhile is_space r = r" using assms(1) l by (simp add: list_all_iff)
  have d: "is_dot (last r)" using assms(2) l k by (cases r) (auto simp: list_all_iff)
  have "drop (Suc k) r = [last r]" using k by (rule drop_to_last)
  then have "group2 [] (drop (Suc k) r) = Some [last r]" using d by simp
  then have "spaces (Suc (Suc k)) r = Some [last r]" using k by simp
  then have "after_group1 r = Some [last r]" by (simp add: after_group1_def sp k)
  moreover have "is_dot a" using assms(2) l by simp
  moreover have "last l = last r" using l k by (cases r) auto
  ultimately show ?thesis by (simp add: l line_match_def)
qed

text \<open>\<open>split_lines\<close> on a text without a line feed, and up to the first line feed.\<close>

lemma split_lines_single: "LF \<notin> set a \<Longrightarrow> split_lines a = [a]"
  by (induction a rule: split_lines.induct) auto

lemma chomp_cr_Cons: "as \<noteq> [] \<Longrightarrow> chomp_cr (a # as) = a # chomp_cr as"
  by (simp add: chomp_cr_def)

lemma split_lines_first: "LF \<notin> set a \<Longrightarrow> split_lines (a @ LF # b) = chomp_cr a # split_lines b"
proof (induction a rule: split_lines.induct)
  case 1
  then show ?case by (cases b) (simp_all add: chomp_cr_def)
next
  case (2 c)
  then have "split_lines (LF # b) = [] # split_lines b"
    by (cases b) simp_all
  with 2 show ?case by (simp add: chomp_cr_def)
next
  case (3 c d cs)
  then have "c \<noteq> LF" and "d \<noteq> LF" and "LF \<notin> set (d # cs)" by auto
  with 3 have "split_lines ((d # cs) @ LF # b) = chomp_cr (d # cs) # split_lines b" by simp
  then have "split_lines (c # d # cs @ LF # b) = (c # chomp_cr (d # cs)) # split_lines b"
    using \<open>c \<noteq> LF\<close> \<open>d \<noteq> LF\<close> by simp
  then show ?case by (simp add: chomp_cr_Cons)
qed

text \<open>The entry of a name is decided by the last line that names it.\<close>

lemma on_data_proto: "on_data m l ''__proto__'' = m ''__proto__''"
  by (auto simp: on_data_def split: option.splits)

lemma on_data_lookup:
  "f \<noteq> ''__proto__'' \<Longrightarrow>
     on_data m l f = (if names_file f l then map_option fst (line_match l) else m f)"
  by (auto simp: on_data_def names_file_def split: option.splits)

lemma parse_lines_snoc: "parse_lines (ls @ [l]) = on_data (parse_lines ls) l"
  by (simp add: parse_lines_def)

lemma parse_lines_proto: "parse_lines ls ''__proto__'' = None"
  by (induction ls rule: rev_induct) (simp_all add: parse_lines_snoc on_data_proto parse_lines_def)

lemma parse_lines_lookup:
  "f \<noteq> ''__proto__'' \<Longrightarrow>
     parse_lines ls f =
       (case find (names_file f) (rev ls) of
          None \<Rightarrow> None
        | Some l \<Rightarrow> map_option fst (line_match l))"
proof (induction ls rule: rev_induct)
  case Nil
  then show ?case by (simp add: parse_lines_def)
next
  case (snoc l ls)
  then show ?case by (simp add: parse_lines_snoc on_data_lookup)
qed

lemma find_append_cases:
  "find P (xs @ ys) = (case find P xs of None \<Rightarrow> find P ys | Some x \<Rightarrow> Some x)"
  by (induction xs) simp_all

lemma parse_lines_last_wins:
  assumes "line_match l = Some (d, f)" and "f \<noteq> ''__proto__''"
    and "list_all (\<lambda>l. \<not> names_file f l) after"
  shows "parse_lines (before @ [l] @ after) f = Some d"
proof -
  have "find (names_file f) (rev after) = None"
    using assms(3) by (simp add: find_None_iff list_all_iff)
  moreover have "names_file f l" using assms(1) by (simp add: names_file_def)
  ultimately show ?thesis
    using assms(1) by (simp add: parse_lines_lookup [OF assms(2)] find_append_cases)
qed

lemmas parse_defs =
  parse_manifest_def parse_lines_def on_data_def line_match_def after_group1_def
  is_space_def is_dot_def LF_def CR_def

lemma parseShasumFile_readable:
  "files w p = Some (File content) \<Longrightarrow>
     parseShasumFile p w = (Inr (parse_manifest content), log_op (ReadFile p) w)"
  by (simp add: parseShasumFile_def read_stream_def)

text \<open>
  Claim C6, as the code has it. Parsing is line by line: the text is cut at every line
  feed, and a carriage return right before the line feed goes with it. The entry of a
  file name is the digest of the last line that names it, and there is none when no line
  does. A line made of a digest field, white space and a file-name field (white space
  may follow) names that file with that digest, and adds the entry unless the name is
  \<open>__proto__\<close>, under which the object stores nothing. A line the pattern does not match
  leaves the mapping as it is: such are a line without white space and a line of at most
  two white-space characters, the empty line among them. A line of three or more blanks
  is matched, its first character as the digest and its last as the name. A readable
  manifest always parses, also to no entry at all. The line \<open>abcd1234  file.tar.gz\<close>
  parses to the entry from \<open>file.tar.gz\<close> to \<open>abcd1234\<close>.
\<close>

theorem manifest_parsing:
  "(LF \<notin> set a \<longrightarrow>
      split_lines a = [a] \<and> split_lines (a @ LF # b) = chomp_cr a # split_lines b) \<and>
   parse_manifest content = parse_lines (split_lines content) \<and>
   (f \<noteq> ''__proto__'' \<longrightarrow>
      parse_lines ls f =
        (case find (names_file f) (rev ls) of
           None \<Rightarrow> None
         | Some x \<Rightarrow> map_option fst (line_match x))) \<and>
   parse_lines ls ''__proto__'' = None \<and>
   (split_lines content = before @ [l] @ after \<and> line_match l = Some (d, f) \<and>
    f \<noteq> ''__proto__'' \<and> list_all (\<lambda>x. \<not> names_file f x) after \<longrightarrow>
      parse_manifest content f = Some d) \<and>
   (digest_field d \<and> ws \<noteq> [] \<and> list_all is_space ws \<and> name_field f \<and> list_all is_space tr \<longrightarrow>
      line_match (d @ ws @ f @ tr) = Some (d, f) \<and>
      on_data m (d @ ws @ f @ tr) = (if f = ''__proto__'' then m else m(f \<mapsto> d))) \<and>
   (line_match l = None \<longrightarrow> on_data m l = m) \<and>
   (list_all (\<lambda>c. \<not> is_space c) l \<or> (list_all is_space l \<and> length l \<le> 2) \<longrightarrow>
      line_match l = None) \<and>
   (list_all is_space l \<and> list_all is_dot l \<and> 3 \<le> length l \<longrightarrow>
      line_match l = Some ([hd l], [last l])) \<and>
   (files w p = Some (File content) \<longrightarrow> fst (parseShasumFile p w) = Inr (parse_manifest content)) \<and>
   parse_manifest [] = Map.empty \<and>
   parse_manifest ''abcd1234  file.tar.gz'' = [''file.tar.gz'' \<mapsto> ''abcd1234''] \<and>
   parse_manifest
     (''abcd1234  file.tar.gz'' @ [CR, LF] @ ''abcd1234file.tar.gz'' @ [LF] @ [LF] @
      ''ffff0000 file.tar.gz'' @ [LF]) = [''file.tar.gz'' \<mapsto> ''ffff0000'']"
proof (intro conjI impI)
  assume "LF \<notin> set a"
  then show "split_lines a = [a]" by (rule split_lines_single)
next
  assume "LF \<notin> set a"
  then show "split_lines (a @ LF # b) = chomp_cr a # split_lines b" by (rule split_lines_first)
next
  show "parse_manifest content = parse_lines (split_lines content)"
    by (simp add: parse_manifest_def)
next
  assume "f \<noteq> ''__proto__''"
  then show "parse_lines ls f =
        (case find (names_file f) (rev ls) of
           None \<Rightarrow> None
         | Some x \<Rightarrow> map_option fst (line_match x))"
    by (rule parse_lines_lookup)
next
  show "parse_lines ls ''__proto__'' = None" by (rule parse_lines_proto)
next
  assume "split_lines content = before @ [l] @ after \<and> line_match l = Some (d, f) \<and>
    f \<noteq> ''__proto__'' \<and> list_all (\<lambda>x. \<not> names_file f x) after"
  then show "parse_manifest content f = Some d"
    using parse_lines_last_wins [of l d f after before] by (simp add: parse_manifest_def)
next
  assume "digest_field d \<and> ws \<noteq> [] \<and> list_all is_space ws \<and> name_field f \<and> list_all is_space tr"
  then show "line_match (d @ ws @ f @ tr) = Some (d, f)"
    by (intro line_match_fields) auto
next
  assume "digest_field d \<and> ws \<noteq> [] \<and> list_all is_space ws \<and> name_field f \<and> list_all is_space tr"
  then have "line_match (d @ ws @ f @ tr) = Some (d, f)"
    by (intro line_match_fields) auto
  then show "on_data m (d @ ws @ f @ tr) = (if f = ''__proto__'' then m else m(f \<mapsto> d))"
    by (simp add: on_data_def)
next
  assume "line_match l = None"
  then show "on_data m l = m" by (simp add: on_data_def)
next
  assume "list_all (\<lambda>c. \<not> is_space c) l \<or> (list_all is_space l \<and> length l \<le> 2)"
  then show "line_match l = None"
    by (auto simp: line_match_no_space line_match_short_blank)
next
  assume "list_all is_space l \<and> list_all is_dot l \<and> 3 \<le> length l"
  then show "line_match l = Some ([hd l], [last l])"
    by (intro line_match_long_blank) auto
next
  assume "files w p = Some (File content)"
  then show "fst (parseShasumFile p w) = Inr (parse_manifest content)"
    by (simp add: parseShasumFile_readable)
next
  show "parse_manifest [] = Map.empty" by (simp add: parse_defs)
next
  show "parse_manifest ''abcd1234  file.tar.gz'' = [''file.tar.gz'' \<mapsto> ''abcd1234'']"
    by (simp add: parse_defs)
next
  show "parse_manifest
     (''abcd1234  file.tar.gz'' @ [CR, LF] @ ''abcd1234file.tar.gz'' @ [LF] @ [LF] @
      ''ffff0000 file.tar.gz'' @ [LF]) = [''file.tar.gz'' \<mapsto> ''ffff0000'']"
    by (simp add: parse_defs)
qed

theorem manifest_parsing_witness:
  "split_lines (''abcd1234  file.tar.gz'' @ [CR] @ LF # ''ffff0000 file.tar.gz'') =
     [''abcd1234  file.tar.gz'', ''ffff0000 file.tar.gz''] \<and>
   parse_manifest (''abcd1234  file.tar.gz'' @ [CR] @ LF # ''ffff0000 file.tar.gz'')
     ''file.tar.gz'' = Some ''ffff0000'' \<and>
   parse_lines [''abcd1234  file.tar.gz'', ''abcd1234  other.tar.gz''] ''file.tar.gz'' =
     Some ''abcd1234'' \<and>
   on_data Map.empty ''abcd1234  file.tar.gz'' = [''file.tar.gz'' \<mapsto> ''abcd1234''] \<and>
   on_data Map.empty ''abcd1234  __proto__'' = Map.empty \<and>
   line_match ''abcd1234file.tar.gz'' = None \<and>
   on_data [''file.tar.gz'' \<mapsto> ''abcd1234''] ''abcd1234file.tar.gz'' =
     [''file.tar.gz'' \<mapsto> ''abcd1234''] \<and>
   line_match ''  '' = None \<and>
   line_match ''    '' = Some ('' '', '' '') \<and>
   fst (parseShasumFile ''/opt/bundler/cache/1.3.0/foo.tar.gz'' world_hit) = Inr Map.empty"
proof -
  note t = manifest_parsing [where w = world_hit and p = "''/opt/bundler/cache/1.3.0/foo.tar.gz''"]
  have s: "split_lines (''abcd1234  file.tar.gz'' @ [CR] @ LF # ''ffff0000 file.tar.gz'') =
     [''abcd1234  file.tar.gz'', ''ffff0000 file.tar.gz'']"
    using t [where a = "''abcd1234  file.tar.gz'' @ [CR]" and b = "''ffff0000 file.tar.gz''"]
          t [where a = "''ffff0000 file.tar.gz''"]
    by (simp add: LF_def CR_def chomp_cr_def)
  have m: "parse_manifest (''abcd1234  file.tar.gz'' @ [CR] @ LF # ''ffff0000 file.tar.gz'')
     ''file.tar.gz'' = Some ''ffff0000''"
    using t [where content = "''abcd1234  file.tar.gz'' @ [CR] @ LF # ''ffff0000 file.tar.gz''"
               and before = "[''abcd1234  file.tar.gz'']" and l = "''ffff0000 file.tar.gz''"
               and after = "[]" and d = "''ffff0000''" and f = "''file.tar.gz''"
               and ws = "'' ''" and tr = "[]"]
          s
    by (simp add: digest_field_def name_field_def names_file_def line_match_def
          after_group1_def is_space_def is_dot_def)
  have k: "parse_lines [''abcd1234  file.tar.gz'', ''abcd1234  other.tar.gz''] ''file.tar.gz'' =
     Some ''abcd1234''"
    using t [where f = "''file.tar.gz''"
               and ls = "[''abcd1234  file.tar.gz'', ''abcd1234  other.tar.gz'']"]
    by (simp add: names_file_def line_match_def after_group1_def is_space_def is_dot_def)
  have o: "on_data Map.empty ''abcd1234  file.tar.gz'' = [''file.tar.gz'' \<mapsto> ''abcd1234'']"
    using t [where d = "''abcd1234''" and ws = "''  ''" and f = "''file.tar.gz''" and tr = "[]"
               and m = Map.empty]
    by (simp add: digest_field_def name_field_def is_space_def is_dot_def)
  have q: "on_data Map.empty ''abcd1234  __proto__'' = Map.empty"
    using t [where d = "''abcd1234''" and ws = "''  ''" and f = "''__proto__''" and tr = "[]"
               and m = Map.empty]
    by (simp add: digest_field_def name_field_def is_space_def is_dot_def)
  have n: "line_match ''abcd1234file.tar.gz'' = None \<and>
      on_data [''file.tar.gz'' \<mapsto> ''abcd1234''] ''abcd1234file.tar.gz'' =
        [''file.tar.gz'' \<mapsto> ''abcd1234'']"
    using t [where l = "''abcd1234file.tar.gz''" and m = "[''file.tar.gz'' \<mapsto> ''abcd1234'']"]
    by (simp add: is_space_def)
  have b2: "line_match ''  '' = None"
    using t [where l = "''  ''"] by (simp add: is_space_def)
  have b4: "line_match ''    '' = Some ('' '', '' '')"
    using t [where l = "''    ''"] by (simp add: is_space_def is_dot_def)
  have r: "fst (parseShasumFile ''/opt/bundler/cache/1.3.0/foo.tar.gz'' world_hit) = Inr Map.empty"
    using t [where content = "[]"]
    by (simp add: world_hit_def parse_lines_def on_data_def line_match_def)
  from s m k o q n b2 b4 r show ?thesis by blast
qed

text \<open>
  The claim as the specification states it fails twice. A blank line is not always
  skipped: a line of three blanks is matched and stored as the entry from a blank to a
  blank. And a line of the form digest, white space, file name does not always yield its
  entry: under the file name \<open>__proto__\<close> nothing is stored.
\<close>

theorem manifest_blank_line_stored:
  "list_all is_space ''   '' \<and>
   line_match ''   '' = Some ('' '', '' '') \<and>
   parse_manifest (''abcd1234  file.tar.gz'' @ [LF] @ ''   '' @ [LF]) =
     [''file.tar.gz'' \<mapsto> ''abcd1234'', '' '' \<mapsto> '' ''] \<and>
   digest_field ''abcd1234'' \<and> list_all is_space ''  '' \<and> name_field ''__proto__'' \<and>
   line_match ''abcd1234  __proto__'' = Some (''abcd1234'', ''__proto__'') \<and>
   parse_manifest ''abcd1234  __proto__'' = Map.empty"
  by (simp add: parse_defs digest_field_def name_field_def)

section \<open>The world after an operation\<close>

lemma log_op_simps [simp]:
  "trace (log_op x w) = trace w @ [x]"
  "files (log_op x w) = files w"
  "writable (log_op x w) = writable w"
  "net (log_op x w) = net w"
  by (simp_all add: log_op_def)

lemma put_simps [simp]:
  "trace (put p n w) = trace w"
  "files (put p n w) = (files w)(p \<mapsto> n)"
  "writable (put p n w) = writable w"
  "net (put p n w) = net w"
  by (simp_all add: put_def)

lemma performed_append [simp]: "trace w' = trace w @ ops \<Longrightarrow> performed w w' = ops"
  by (simp add: performed_def)

lemma performed_same [simp]: "performed w w = []"
  by (simp add: performed_def)

lemma read_stream_file:
  "files w p = Some (File content) \<Longrightarrow> read_stream p w = (Inr content, log_op (ReadFile p) w)"
  by (simp add: read_stream_def)

lemma read_stream_trace [simp]: "trace (snd (read_stream p w)) = trace w @ [ReadFile p]"
  by (simp add: read_stream_def split: option.splits node.splits)

lemma read_stream_files [simp]: "files (snd (read_stream p w)) = files w"
  by (simp add: read_stream_def split: option.splits node.splits)

lemma read_stream_Inr:
  "fst (read_stream p w) = Inr content \<longleftrightarrow> files w p = Some (File content)"
  by (simp add: read_stream_def split: option.splits node.splits)

lemma validateShasum_file:
  "files w p = Some (File content) \<Longrightarrow>
     validateShasum p e w =
       (if shasum_of content = e then Inr p else Inl (ChecksumMismatch p e (shasum_of content)),
        log_op (ReadFile p) w)"
  by (simp add: validateShasum_def read_stream_file Let_def)

lemma validateShasum_trace [simp]: "trace (snd (validateShasum p e w)) = trace w @ [ReadFile p]"
  by (simp add: validateShasum_def read_stream_def Let_def split: option.splits node.splits)

lemma validateShasum_files [simp]: "files (snd (validateShasum p e w)) = files w"
  by (simp add: validateShasum_def read_stream_def Let_def split: option.splits node.splits)

lemma validateShasum_Inr:
  "fst (validateShasum p e w) = Inr q \<longleftrightarrow>
     q = p \<and> (\<exists>content. files w p = Some (File content) \<and> shasum_of content = e)"
  by (auto simp: validateShasum_def read_stream_def Let_def split: option.splits node.splits)

lemma validateShasum_not_missing [simp]: "fst (validateShasum p e w) \<noteq> Inl MissingChecksum"
  by (simp add: validateShasum_def read_stream_def Let_def split: option.splits node.splits)

lemma pipe_request_trace [simp]:
  "trace (snd (pipe_request u p w)) = trace w @ [HttpGet u, WriteFile p]"
  by (simp add: pipe_request_def Let_def split: response.splits)

lemma pipe_request_error:
  "fst (pipe_request u p w) = Some e \<Longrightarrow> e = FsError p \<or> e = RequestFailed u"
  by (auto simp: pipe_request_def Let_def split: if_splits response.splits)

lemma pipe_request_finish:
  "fst (pipe_request u p w) = None \<Longrightarrow>
     \<exists>status ctype body. net w u = Response status ctype body \<and>
       files (snd (pipe_request u p w)) = (files w)(p \<mapsto> File body)"
  by (auto simp: pipe_request_def Let_def split: if_splits response.splits)

lemma fs_exists_simps [simp]:
  "fst (fs_exists p w) = (files w p \<noteq> None)"
  "snd (fs_exists p w) = log_op (Exists p) w"
  by (simp_all add: fs_exists_def)

section \<open>\<open>ensure\<close>, case by case\<close>

lemma ensure_missing:
  "sums fileName = None \<Longrightarrow> ensure E u fileName d sums w = (Inl MissingChecksum, w)"
  by (simp add: ensure_def Let_def)

lemma ensure_hit:
  "sums fileName = Some e \<Longrightarrow> files w (pathJoin E d fileName) \<noteq> None \<Longrightarrow>
     ensure E u fileName d sums w =
       validateShasum (pathJoin E d fileName) e (log_op (Exists (pathJoin E d fileName)) w)"
  by (simp add: ensure_def fs_exists_def Let_def)

lemma ensure_miss:
  "sums fileName = Some e \<Longrightarrow> files w (pathJoin E d fileName) = None \<Longrightarrow>
     ensure E u fileName d sums w =
       (case pipe_request u (pathJoin E d fileName) (log_op (Exists (pathJoin E d fileName)) w) of
          (Some err, w2) \<Rightarrow> (Inl err, w2)
        | (None, w2) \<Rightarrow> validateShasum (pathJoin E d fileName) e w2)"
  by (simp add: ensure_def fs_exists_def Let_def)

lemma ensure_not_missing:
  assumes "sums fileName = Some e"
  shows "fst (ensure E u fileName d sums w) \<noteq> Inl MissingChecksum"
proof (cases "files w (pathJoin E d fileName) = None")
  case False
  with assms show ?thesis by (simp add: ensure_hit)
next
  case True
  obtain r w2 where r: "pipe_request u (pathJoin E d fileName)
      (log_op (Exists (pathJoin E d fileName)) w) = (r, w2)" by (cases "pipe_request u (pathJoin E d fileName)
      (log_op (Exists (pathJoin E d fileName)) w)")
  show ?thesis
  proof (cases r)
    case None
    with assms True r show ?thesis by (simp add: ensure_miss)
  next
    case (Some err)
    with pipe_request_error [of u "pathJoin E d fileName" "log_op (Exists (pathJoin E d fileName)) w" err] r
    have "err \<noteq> MissingChecksum" by auto
    with assms True r Some show ?thesis by (simp add: ensure_miss)
  qed
qed

lemma ensure_trace:
  "\<exists>ops. trace (snd (ensure E u fileName d sums w)) = trace w @ ops \<and>
     distinct ops \<and>
     set ops \<subseteq> {Exists (pathJoin E d fileName), HttpGet u, WriteFile (pathJoin E d fileName),
                 ReadFile (pathJoin E d fileName)}"
proof (cases "sums fileName")
  case None
  then show ?thesis by (simp add: ensure_missing)
next
  case (Some e)
  show ?thesis
  proof (cases "files w (pathJoin E d fileName) = None")
    case False
    with Some show ?thesis by (simp add: ensure_hit)
  next
    case True
    obtain r w2 where r: "pipe_request u (pathJoin E d fileName)
      (log_op (Exists (pathJoin E d fileName)) w) = (r, w2)" by (cases "pipe_request u (pathJoin E d fileName)
      (log_op (Exists (pathJoin E d fileName)) w)")
    from arg_cong [OF r, of "\<lambda>x. trace (snd x)"]
    have t: "trace w2 = trace w @ [Exists (pathJoin E d fileName), HttpGet u,
        WriteFile (pathJoin E d fileName)]" by simp
    show ?thesis
      using Some True r t by (cases r) (simp_all add: ensure_miss)
  qed
qed

lemma ensure_Inr:
  assumes "fst (ensure E u fileName d sums w) = Inr p"
  shows "p = pathJoin E d fileName \<and>
     (\<exists>content. files (snd (ensure E u fileName d sums w)) p = Some (File content) \<and>
        sums fileName = Some (shasum_of content))"
proof (cases "sums fileName")
  case None
  with assms show ?thesis by (simp add: ensure_missing)
next
  case (Some e)
  show ?thesis
  proof (cases "files w (pathJoin E d fileName) = None")
    case False
    with Some assms show ?thesis by (auto simp: ensure_hit validateShasum_Inr)
  next
    case True
    obtain r w2 where r: "pipe_request u (pathJoin E d fileName)
      (log_op (Exists (pathJoin E d fileName)) w) = (r, w2)" by (cases "pipe_request u (pathJoin E d fileName)
      (log_op (Exists (pathJoin E d fileName)) w)")
    with Some True assms show ?thesis
      by (cases r) (auto simp: ensure_miss validateShasum_Inr)
  qed
qed

section \<open>Verified download: the claims about \<open>ensure\<close>\<close>

lemma shasum_of_empty_digest: "shasum_of [] = empty_digest"
  by (simp add: shasum_of_empty empty_digest_def)

lemma empty_not_abc: "empty_digest \<noteq> abc_digest"
  by (simp add: empty_digest_def abc_digest_def)

lemma hexdigit_lower: "n < 16 \<Longrightarrow> hexdigit n \<in> set hex_digits"
proof -
  assume "n < 16"
  then have "n < length hex_digits" by (simp add: hex_digits_def)
  then show ?thesis unfolding hexdigit_def by (rule nth_mem)
qed

lemma hex_lower: "list_all (\<lambda>b. b < 256) bs \<Longrightarrow> set (hex bs) \<subseteq> set hex_digits"
proof (induction bs)
  case Nil
  then show ?case by (simp add: hex_def)
next
  case (Cons b bs)
  then have "b div 16 < 16" and "b mod 16 < 16" by auto
  then have "hexdigit (b div 16) \<in> set hex_digits"
    and "hexdigit (b mod 16) \<in> set hex_digits"
    by (auto intro: hexdigit_lower)
  moreover have "set (hex bs) \<subseteq> set hex_digits" using Cons by simp
  moreover have "hex (b # bs) = hexdigit (b div 16) # hexdigit (b mod 16) # hex bs"
    by (simp add: hex_def)
  ultimately show ?case by simp
qed

lemma sha256_bytes: "list_all (\<lambda>b. b < 256) (sha256 bs)"
  by (simp add: sha256_def be_bytes_def list_all_iff)

lemma shasum_of_lower: "set (shasum_of content) \<subseteq> set hex_digits"
  unfolding shasum_of_def by (rule hex_lower [OF sha256_bytes])

text \<open>
  Claim C7. When the manifest has no entry for the file name, \<open>ensure\<close> fails with
  \<open>MissingChecksum\<close> and the world is the one it started in: nothing was looked up on
  disk and nothing was requested. When the manifest has an entry, \<open>ensure\<close> does not
  fail with \<open>MissingChecksum\<close>. The method \<open>downloadAndCacheFile\<close> on fulfilled promises is
  \<open>ensure\<close>.
\<close>

theorem ensure_missing_checksum:
  "(sums fileName = None \<longrightarrow>
      ensure E fileUrl fileName cacheDir sums w = (Inl MissingChecksum, w)) \<and>
   (sums fileName \<noteq> None \<longrightarrow>
      fst (ensure E fileUrl fileName cacheDir sums w) \<noteq> Inl MissingChecksum) \<and>
   downloadAndCacheFile E (Inr fileUrl) (Inr fileName) (Inr cacheDir) (Inr sums) w =
     ensure E fileUrl fileName cacheDir sums w"
  by (auto simp: ensure_missing ensure_not_missing downloadAndCacheFile_def)

theorem ensure_missing_checksum_witness:
  "ensure node_env ''https://iojs.org/dist/v1.3.0/bar.tar.gz'' ''bar.tar.gz''
     ''/opt/bundler/cache/1.3.0'' [''foo.tar.gz'' \<mapsto> empty_digest] world_hit =
     (Inl MissingChecksum, world_hit) \<and>
   fst (ensure node_env ''https://iojs.org/dist/v1.3.0/foo.tar.gz'' ''foo.tar.gz''
     ''/opt/bundler/cache/1.3.0'' [''foo.tar.gz'' \<mapsto> abc_digest] world_hit) \<noteq> Inl MissingChecksum"
  using ensure_missing_checksum
          [where sums = "[''foo.tar.gz'' \<mapsto> empty_digest]" and fileName = "''bar.tar.gz''"
             and E = node_env and fileUrl = "''https://iojs.org/dist/v1.3.0/bar.tar.gz''"
             and cacheDir = "''/opt/bundler/cache/1.3.0''" and w = world_hit]
        ensure_missing_checksum
          [where sums = "[''foo.tar.gz'' \<mapsto> abc_digest]" and fileName = "''foo.tar.gz''"
             and E = node_env and fileUrl = "''https://iojs.org/dist/v1.3.0/foo.tar.gz''"
             and cacheDir = "''/opt/bundler/cache/1.3.0''" and w = world_hit]
  by simp

text \<open>
  Claim C8. When the file is in the cache directory and the manifest's entry is the
  digest of its content, \<open>ensure\<close> succeeds with the cached path, and all it did was one
  existence check and one read of that path: no request, and the files are as before.
\<close>

theorem ensure_cache_hit_no_request:
  "files w (pathJoin E cacheDir fileName) = Some (File content) \<and>
   sums fileName = Some (shasum_of content) \<longrightarrow>
     fst (ensure E fileUrl fileName cacheDir sums w) = Inr (pathJoin E cacheDir fileName) \<and>
     performed w (snd (ensure E fileUrl fileName cacheDir sums w)) =
       [Exists (pathJoin E cacheDir fileName), ReadFile (pathJoin E cacheDir fileName)] \<and>
     (\<forall>u. HttpGet u \<notin> set (performed w (snd (ensure E fileUrl fileName cacheDir sums w)))) \<and>
     files (snd (ensure E fileUrl fileName cacheDir sums w)) = files w"
  by (auto simp: ensure_hit validateShasum_file)

theorem ensure_cache_hit_no_request_witness:
  "fst (ensure node_env ''https://iojs.org/dist/v1.3.0/foo.tar.gz'' ''foo.tar.gz''
     ''/opt/bundler/cache/1.3.0'' [''foo.tar.gz'' \<mapsto> empty_digest] world_hit) =
     Inr ''/opt/bundler/cache/1.3.0/foo.tar.gz'' \<and>
   performed world_hit
     (snd (ensure node_env ''https://iojs.org/dist/v1.3.0/foo.tar.gz'' ''foo.tar.gz''
        ''/opt/bundler/cache/1.3.0'' [''foo.tar.gz'' \<mapsto> empty_digest] world_hit)) =
     [Exists ''/opt/bundler/cache/1.3.0/foo.tar.gz'', ReadFile ''/opt/bundler/cache/1.3.0/foo.tar.gz'']"
  using ensure_cache_hit_no_request
          [where sums = "[''foo.tar.gz'' \<mapsto> empty_digest]" and fileName = "''foo.tar.gz''"
             and E = node_env and fileUrl = "''https://iojs.org/dist/v1.3.0/foo.tar.gz''"
             and cacheDir = "''/opt/bundler/cache/1.3.0''" and w = world_hit and content = "[]"]
  by (simp add: node_env_def slash_join_def world_hit_def shasum_of_empty_digest)

text \<open>
  Claim C2. On a cache hit the digest is still checked: the file is read, its SHA-256 is
  compared with the manifest's entry, and \<open>ensure\<close> succeeds with the path when the two
  are equal and fails with \<open>ChecksumMismatch\<close> when they are not. This is the one method
  both artifact requests go through.
\<close>

theorem ensure_cache_hit_verifies:
  "files w (pathJoin E cacheDir fileName) = Some (File content) \<and> sums fileName = Some expected \<longrightarrow>
     fst (ensure E fileUrl fileName cacheDir sums w) =
       (if shasum_of content = expected then Inr (pathJoin E cacheDir fileName)
        else Inl (ChecksumMismatch (pathJoin E cacheDir fileName) expected (shasum_of content))) \<and>
     ReadFile (pathJoin E cacheDir fileName) \<in>
       set (performed w (snd (ensure E fileUrl fileName cacheDir sums w)))"
  by (auto simp: ensure_hit validateShasum_file)

theorem ensure_cache_hit_verifies_witness:
  "fst (ensure node_env ''https://iojs.org/dist/v1.3.0/foo.tar.gz'' ''foo.tar.gz''
     ''/opt/bundler/cache/1.3.0'' [''foo.tar.gz'' \<mapsto> abc_digest] world_hit) =
     Inl (ChecksumMismatch ''/opt/bundler/cache/1.3.0/foo.tar.gz'' abc_digest empty_digest) \<and>
   fst (ensure node_env ''https://iojs.org/dist/v1.3.0/foo.tar.gz'' ''foo.tar.gz''
     ''/opt/bundler/cache/1.3.0'' [''foo.tar.gz'' \<mapsto> empty_digest] world_hit) =
     Inr ''/opt/bundler/cache/1.3.0/foo.tar.gz''"
  using ensure_cache_hit_verifies
          [where sums = "[''foo.tar.gz'' \<mapsto> abc_digest]" and fileName = "''foo.tar.gz''"
             and E = node_env and fileUrl = "''https://iojs.org/dist/v1.3.0/foo.tar.gz''"
             and cacheDir = "''/opt/bundler/cache/1.3.0''" and w = world_hit and content = "[]"
             and expected = abc_digest]
        ensure_cache_hit_verifies
          [where sums = "[''foo.tar.gz'' \<mapsto> empty_digest]" and fileName = "''foo.tar.gz''"
             and E = node_env and fileUrl = "''https://iojs.org/dist/v1.3.0/foo.tar.gz''"
             and cacheDir = "''/opt/bundler/cache/1.3.0''" and w = world_hit and content = "[]"
             and expected = empty_digest]
  by (simp add: node_env_def slash_join_def world_hit_def shasum_of_empty_digest empty_not_abc)

text \<open>
  Claim C3, as the code has it. \<open>validateShasum\<close> compares the two strings with
  \<^verbatim>\<open>===\<close>: it succeeds exactly when the file can be read and the manifest's value is,
  character for character, the hex digest of its content, which has lower-case letters
  only.
\<close>

theorem validateShasum_exact_match:
  "(fst (validateShasum p expected w) = Inr p) =
     (\<exists>content. files w p = Some (File content) \<and> expected = shasum_of content) \<and>
   set (shasum_of content) \<subseteq> set hex_digits"
  by (auto simp: validateShasum_Inr shasum_of_lower)

theorem validateShasum_exact_match_witness:
  "fst (validateShasum ''/opt/bundler/cache/1.3.0/foo.tar.gz'' empty_digest world_hit) =
     Inr ''/opt/bundler/cache/1.3.0/foo.tar.gz'' \<and>
   fst (validateShasum ''/opt/bundler/cache/1.3.0/foo.tar.gz'' abc_digest world_hit) \<noteq>
     Inr ''/opt/bundler/cache/1.3.0/foo.tar.gz''"
  using validateShasum_exact_match
          [where p = "''/opt/bundler/cache/1.3.0/foo.tar.gz''" and expected = empty_digest
             and w = world_hit and content = "[]"]
        validateShasum_exact_match
          [where p = "''/opt/bundler/cache/1.3.0/foo.tar.gz''" and expected = abc_digest
             and w = world_hit and content = "[]"]
  by (simp add: world_hit_def shasum_of_empty_digest empty_not_abc not_sym [OF empty_not_abc])

text \<open>
  The claim as the specification states it (the comparison ignores the case of the hex
  letters) fails: the cached file is empty, the manifest gives the digest of the empty
  file in upper case, both strings denote the same 32 bytes, and verification fails.
\<close>

theorem validateShasum_case_sensitive:
  "unhex upper_digest = unhex (shasum_of []) \<and>
   unhex upper_digest \<noteq> None \<and>
   files world_hit ''/opt/bundler/cache/1.3.0/foo.tar.gz'' = Some (File []) \<and>
   fst (validateShasum ''/opt/bundler/cache/1.3.0/foo.tar.gz'' upper_digest world_hit) =
     Inl (ChecksumMismatch ''/opt/bundler/cache/1.3.0/foo.tar.gz'' upper_digest empty_digest) \<and>
   fst (ensure node_env ''https://iojs.org/dist/v1.3.0/foo.tar.gz'' ''foo.tar.gz''
     ''/opt/bundler/cache/1.3.0'' [''foo.tar.gz'' \<mapsto> upper_digest] world_hit) =
     Inl (ChecksumMismatch ''/opt/bundler/cache/1.3.0/foo.tar.gz'' upper_digest empty_digest)"
proof -
  have f: "files world_hit ''/opt/bundler/cache/1.3.0/foo.tar.gz'' = Some (File [])"
    by (simp add: world_hit_def)
  have u1: "unhex upper_digest = unhex (shasum_of [])"
    by (simp add: shasum_of_empty_digest) (simp add: unhex_digit_def upper_digest_def empty_digest_def)
  have u2: "unhex upper_digest \<noteq> None"
    by (simp add: unhex_digit_def upper_digest_def)
  have n: "empty_digest \<noteq> upper_digest"
    by (simp add: upper_digest_def empty_digest_def)
  have v: "fst (validateShasum ''/opt/bundler/cache/1.3.0/foo.tar.gz'' upper_digest world_hit) =
     Inl (ChecksumMismatch ''/opt/bundler/cache/1.3.0/foo.tar.gz'' upper_digest empty_digest)"
    using n by (simp add: validateShasum_file [OF f] shasum_of_empty_digest)
  have p: "pathJoin node_env ''/opt/bundler/cache/1.3.0'' ''foo.tar.gz'' =
      ''/opt/bundler/cache/1.3.0/foo.tar.gz''"
    by (simp add: node_env_def slash_join_def)
  have e: "fst (ensure node_env ''https://iojs.org/dist/v1.3.0/foo.tar.gz'' ''foo.tar.gz''
     ''/opt/bundler/cache/1.3.0'' [''foo.tar.gz'' \<mapsto> upper_digest] world_hit) =
     Inl (ChecksumMismatch ''/opt/bundler/cache/1.3.0/foo.tar.gz'' upper_digest empty_digest)"
    using n f by (simp add: ensure_hit p validateShasum_file shasum_of_empty_digest)
  show ?thesis using f u1 u2 v e by blast
qed

section \<open>The constructor and \<open>install\<close>\<close>

lemma mkdirp_trace [simp]: "trace (snd (mkdirp d w)) = trace w @ [Mkdirp d]"
  by (simp add: mkdirp_def split: option.splits node.splits)

lemma mkdirp_Inr: "fst (mkdirp d w) = Inr p \<Longrightarrow> p = d"
  by (auto simp: mkdirp_def split: option.splits node.splits if_splits)

lemma Installer_invalid:
  "\<not> validRange E sel \<Longrightarrow> Installer E tp sel opts w = (Inl (InvalidSelector sel), w)"
  by (simp add: Installer_def)

text \<open>The object of a successful construction, promise by promise.\<close>

lemma Installer_Inr:
  assumes "Installer E tp sel opts w = (Inr this, w')"
  obtains w1 w2 w3 w4 w5 where
    "validRange E sel"
    "downloadCacheDir_promise E w = (downloadCacheDir this, w1)"
    "version_promise E sel w1 = (version this, w2)"
    "installerFileName this =
       then_promise (version this)
         (\<lambda>v. installerFileName_of v (opt_platform E opts) (opt_arch E opts))"
    "installerFileUrl this = join2 (version this) (installerFileName this) fileUrl_of"
    "srcFileName this = then_promise (version this) srcFileName_of"
    "srcFileUrl this = join2 (version this) (srcFileName this) fileUrl_of"
    "downloadCacheDirForVersion_promise E (version this) (downloadCacheDir this) w2 =
       (downloadCacheDirForVersion this, w3)"
    "shasums_promise E (downloadCacheDirForVersion this) (version this) w3 = (shasums this, w4)"
    "downloadAndCacheFile E (installerFileUrl this) (installerFileName this)
       (downloadCacheDirForVersion this) (shasums this) w4 = (installerFile this, w5)"
    "downloadAndCacheFile E (srcFileUrl this) (srcFileName this)
       (downloadCacheDirForVersion this) (shasums this) w5 = (srcFile this, w')"
  using assms
  by (auto simp: Installer_def Let_def split: if_splits prod.splits)

lemma Installer_valid:
  "validRange E sel \<Longrightarrow> \<exists>this w'. Installer E tp sel opts w = (Inr this, w')"
  by (simp add: Installer_def Let_def split: prod.splits)

lemma downloadCacheDir_Inr: "fst (downloadCacheDir_promise E w) = Inr r \<Longrightarrow> r = cacheRoot E"
  by (auto simp: downloadCacheDir_promise_def dest: mkdirp_Inr)

lemma downloadCacheDirForVersion_Inr:
  "fst (downloadCacheDirForVersion_promise E vP dP w) = Inr d \<Longrightarrow>
     \<exists>v r. vP = Inr v \<and> dP = Inr r \<and> d = pathResolve E r v"
  by (auto simp: downloadCacheDirForVersion_promise_def split: sum.splits dest: mkdirp_Inr)

lemma downloadAndCacheFile_Inr:
  "fst (downloadAndCacheFile E uP nP dP sP w) = Inr p \<Longrightarrow>
     \<exists>u n d s. uP = Inr u \<and> nP = Inr n \<and> dP = Inr d \<and> sP = Inr s \<and>
       fst (ensure E u n d s w) = Inr p"
  by (auto simp: downloadAndCacheFile_def split: sum.splits)

lemma then_promise_Inr: "then_promise p f = Inr y \<longleftrightarrow> (\<exists>x. p = Inr x \<and> y = f x)"
  by (auto simp: then_promise_def split: sum.splits)

lemma join2_Inr: "join2 p q f = Inr z \<longleftrightarrow> (\<exists>x y. p = Inr x \<and> q = Inr y \<and> z = f x y)"
  by (auto simp: join2_def split: sum.splits)

text \<open>
  Claim C9. A selector that is not a valid range makes the constructor throw, and the
  world is the one it started in: no directory was made and no request was sent. A
  valid selector never makes it throw.
\<close>

theorem Installer_selector_validation:
  "(\<not> validRange E versionSelector \<longrightarrow>
      Installer E tp versionSelector opts w = (Inl (InvalidSelector versionSelector), w)) \<and>
   (validRange E versionSelector \<longrightarrow>
      (\<exists>this w'. Installer E tp versionSelector opts w = (Inr this, w')))"
  by (simp add: Installer_invalid Installer_valid)

theorem Installer_selector_validation_witness:
  "Installer node_env ''/target'' ''latest!'' default_opts world0 =
     (Inl (InvalidSelector ''latest!''), world0) \<and>
   (\<exists>this w'. Installer node_env ''/target'' ''^1.2.0'' default_opts world0 = (Inr this, w'))"
  using Installer_selector_validation
          [where E = node_env and versionSelector = "''latest!''" and tp = "''/target''"
             and opts = default_opts and w = world0]
        Installer_selector_validation
          [where E = node_env and versionSelector = "''^1.2.0''" and tp = "''/target''"
             and opts = default_opts and w = world0]
  by (simp add: env_defs)

text \<open>
  Claim C10. When \<open>ensure\<close> succeeds, its value is the cache directory joined with the
  file name; every file-system operation it performed was on that path, and the file
  there has the digest the manifest records. In a session, the path of the installer
  artifact and the path of the source artifact are therefore functions of the resolved
  version and the file name derived from it.
\<close>

theorem ensure_result_path:
  "(fst (ensure E fileUrl fileName cacheDir sums w) = Inr p \<longrightarrow>
      p = pathJoin E cacheDir fileName \<and>
      set (performed w (snd (ensure E fileUrl fileName cacheDir sums w))) \<subseteq>
        {Exists p, HttpGet fileUrl, WriteFile p, ReadFile p} \<and>
      (\<exists>content. files (snd (ensure E fileUrl fileName cacheDir sums w)) p = Some (File content) \<and>
         sums fileName = Some (shasum_of content))) \<and>
   (Installer E tp versionSelector opts w = (Inr this, w') \<and> installerFile this = Inr p \<longrightarrow>
      (\<exists>v. version this = Inr v \<and>
         p = pathJoin E (pathResolve E (cacheRoot E) v)
               (installerFileName_of v (opt_platform E opts) (opt_arch E opts)))) \<and>
   (Installer E tp versionSelector opts w = (Inr this, w') \<and> srcFile this = Inr p \<longrightarrow>
      (\<exists>v. version this = Inr v \<and>
         p = pathJoin E (pathResolve E (cacheRoot E) v) (srcFileName_of v)))"
proof (intro conjI impI)
  assume a: "fst (ensure E fileUrl fileName cacheDir sums w) = Inr p"
  from ensure_Inr [OF a] have p: "p = pathJoin E cacheDir fileName"
    and c: "\<exists>content. files (snd (ensure E fileUrl fileName cacheDir sums w)) p = Some (File content) \<and>
         sums fileName = Some (shasum_of content)" by auto
  show "p = pathJoin E cacheDir fileName" by (rule p)
  show "\<exists>content. files (snd (ensure E fileUrl fileName cacheDir sums w)) p = Some (File content) \<and>
         sums fileName = Some (shasum_of content)" by (rule c)
  from ensure_trace [of E fileUrl fileName cacheDir sums w]
  show "set (performed w (snd (ensure E fileUrl fileName cacheDir sums w))) \<subseteq>
        {Exists p, HttpGet fileUrl, WriteFile p, ReadFile p}"
    by (auto simp: p)
next
  assume "Installer E tp versionSelector opts w = (Inr this, w') \<and> installerFile this = Inr p"
  then have i: "Installer E tp versionSelector opts w = (Inr this, w')"
    and f: "installerFile this = Inr p" by auto
  from i obtain w1 w2 w3 w4 w5 where
    s: "downloadCacheDir_promise E w = (downloadCacheDir this, w1)"
      "installerFileName this =
         then_promise (version this)
           (\<lambda>v. installerFileName_of v (opt_platform E opts) (opt_arch E opts))"
      "downloadCacheDirForVersion_promise E (version this) (downloadCacheDir this) w2 =
         (downloadCacheDirForVersion this, w3)"
      "downloadAndCacheFile E (installerFileUrl this) (installerFileName this)
         (downloadCacheDirForVersion this) (shasums this) w4 = (installerFile this, w5)"
    by (rule Installer_Inr)
  from s(4) f have "fst (downloadAndCacheFile E (installerFileUrl this) (installerFileName this)
         (downloadCacheDirForVersion this) (shasums this) w4) = Inr p" by simp
  from downloadAndCacheFile_Inr [OF this] obtain u n d sm where
    n: "installerFileName this = Inr n" and d: "downloadCacheDirForVersion this = Inr d"
    and e: "fst (ensure E u n d sm w4) = Inr p" by auto
  from ensure_Inr [OF e] have p: "p = pathJoin E d n" by simp
  from s(3) d have "fst (downloadCacheDirForVersion_promise E (version this)
      (downloadCacheDir this) w2) = Inr d" by simp
  from downloadCacheDirForVersion_Inr [OF this] obtain v r where
    v: "version this = Inr v" and r: "downloadCacheDir this = Inr r" and dd: "d = pathResolve E r v"
    by auto
  from s(1) r have "fst (downloadCacheDir_promise E w) = Inr r" by simp
  then have rr: "r = cacheRoot E" by (rule downloadCacheDir_Inr)
  from s(2) n v have "n = installerFileName_of v (opt_platform E opts) (opt_arch E opts)"
    by (simp add: then_promise_def)
  with p dd rr v
  show "\<exists>v. version this = Inr v \<and>
         p = pathJoin E (pathResolve E (cacheRoot E) v)
               (installerFileName_of v (opt_platform E opts) (opt_arch E opts))" by simp
next
  assume "Installer E tp versionSelector opts w = (Inr this, w') \<and> srcFile this = Inr p"
  then have i: "Installer E tp versionSelector opts w = (Inr this, w')"
    and f: "srcFile this = Inr p" by auto
  from i obtain w1 w2 w3 w4 w5 where
    s: "downloadCacheDir_promise E w = (downloadCacheDir this, w1)"
      "srcFileName this = then_promise (version this) srcFileName_of"
      "downloadCacheDirForVersion_promise E (version this) (downloadCacheDir this) w2 =
         (downloadCacheDirForVersion this, w3)"
      "downloadAndCacheFile E (srcFileUrl this) (srcFileName this)
         (downloadCacheDirForVersion this) (shasums this) w5 = (srcFile this, w')"
    by (rule Installer_Inr)
  from s(4) f have "fst (downloadAndCacheFile E (srcFileUrl this) (srcFileName this)
         (downloadCacheDirForVersion this) (shasums this) w5) = Inr p" by simp
  from downloadAndCacheFile_Inr [OF this] obtain u n d sm where
    n: "srcFileName this = Inr n" and d: "downloadCacheDirForVersion this = Inr d"
    and e: "fst (ensure E u n d sm w5) = Inr p" by auto
  from ensure_Inr [OF e] have p: "p = pathJoin E d n" by simp
  from s(3) d have "fst (downloadCacheDirForVersion_promise E (version this)
      (downloadCacheDir this) w2) = Inr d" by simp
  from downloadCacheDirForVersion_Inr [OF this] obtain v r where
    v: "version this = Inr v" and r: "downloadCacheDir this = Inr r" and dd: "d = pathResolve E r v"
    by auto
  from s(1) r have "fst (downloadCacheDir_promise E w) = Inr r" by simp
  then have rr: "r = cacheRoot E" by (rule downloadCacheDir_Inr)
  from s(2) n v have "n = srcFileName_of v" by (simp add: then_promise_def)
  with p dd rr v
  show "\<exists>v. version this = Inr v \<and>
         p = pathJoin E (pathResolve E (cacheRoot E) v) (srcFileName_of v)" by simp
qed

lemmas model_defs =
  Installer_def downloadCacheDir_promise_def version_promise_def index_callback_def
  downloadCacheDirForVersion_promise_def shasums_promise_def shasums_body_def
  downloadAndCacheFile_def ensure_def validateShasum_def parseShasumFile_def
  read_stream_def pipe_request_def fs_exists_def mkdirp_def log_op_def put_def
  then_promise_def join2_def installerFileName_of_def srcFileName_of_def fileUrl_of_def
  shasumsFileUrl_of_def opt_platform_def opt_arch_def indexJson_def Let_def

lemma parse_manifest0: "parse_manifest manifest0 = manifest_map0"
  by (simp add: parse_defs manifest0_def empty_digest_def manifest_map0_def)

lemma session_linux:
  "Installer node_env ''/target'' ''^1.2.0'' default_opts world0 =
     (Inr (session_installer ''linux''), session_world ''linux'')"
  by (simp add: model_defs env_defs world0_def net0_def index0_def default_opts_def
      shasum_of_empty_digest parse_manifest0 manifest_map0_def
      session_installer_def session_world_def session_trace_def)

lemma session_darwin:
  "Installer node_env ''/target'' ''^1.2.0'' darwin_opts world0 =
     (Inr (session_installer ''darwin''), session_world ''darwin'')"
  by (simp add: model_defs env_defs world0_def net0_def index0_def darwin_opts_def
      shasum_of_empty_digest parse_manifest0 manifest_map0_def
      session_installer_def session_world_def session_trace_def)

section \<open>The trace of a session\<close>

lemma count_list_distinct: "distinct xs \<Longrightarrow> count_list xs x \<le> 1"
  by (induction xs) auto

lemma count_list_absent: "x \<notin> set xs \<Longrightarrow> count_list xs x = 0"
  by (induction xs) auto

lemma indexJson_not_shasums: "indexJson \<noteq> shasumsFileUrl_of v"
  by (simp add: indexJson_def shasumsFileUrl_of_def)

lemma indexJson_not_file: "indexJson \<noteq> fileUrl_of v n"
  by (simp add: indexJson_def fileUrl_of_def)

lemma installer_url_not_shasums:
  "fileUrl_of v (installerFileName_of v' pl ar) \<noteq> shasumsFileUrl_of v''"
proof
  assume "fileUrl_of v (installerFileName_of v' pl ar) = shasumsFileUrl_of v''"
  then have "last (fileUrl_of v (installerFileName_of v' pl ar)) = last (shasumsFileUrl_of v'')"
    by simp
  then show False
    by (simp add: fileUrl_of_def installerFileName_of_def shasumsFileUrl_of_def)
qed

lemma src_url_not_shasums: "fileUrl_of v (srcFileName_of v') \<noteq> shasumsFileUrl_of v''"
proof
  assume "fileUrl_of v (srcFileName_of v') = shasumsFileUrl_of v''"
  then have "last (fileUrl_of v (srcFileName_of v')) = last (shasumsFileUrl_of v'')"
    by simp
  then show False
    by (simp add: fileUrl_of_def srcFileName_of_def shasumsFileUrl_of_def)
qed

lemma downloadCacheDir_trace [simp]:
  "trace (snd (downloadCacheDir_promise E w)) = trace w @ [Mkdirp (cacheRoot E)]"
  by (simp add: downloadCacheDir_promise_def)

lemma version_promise_trace [simp]:
  "trace (snd (version_promise E sel w)) = trace w @ [HttpGet indexJson]"
  by (simp add: version_promise_def)

lemma downloadCacheDirForVersion_trace:
  "\<exists>ops. trace (snd (downloadCacheDirForVersion_promise E vP dP w)) = trace w @ ops \<and>
     (\<forall>u. HttpGet u \<notin> set ops)"
  by (auto simp: downloadCacheDirForVersion_promise_def split: sum.splits)

lemma parseShasumFile_trace [simp]:
  "trace (snd (parseShasumFile p w)) = trace w @ [ReadFile p]"
  by (simp add: parseShasumFile_def read_stream_def split: option.splits node.splits)

lemma shasums_body_trace:
  "\<exists>ops. trace (snd (shasums_body E d v w)) = trace w @ ops \<and> distinct ops \<and>
     set ops \<subseteq> file_ops (pathJoin E d ''SHASUM256.txt'') (shasumsFileUrl_of v)"
proof (cases "files w (pathJoin E d ''SHASUM256.txt'') = None")
  case False
  then show ?thesis
    by (simp add: shasums_body_def Let_def fs_exists_def file_ops_def)
next
  case True
  obtain r w2 where r: "pipe_request (shasumsFileUrl_of v) (pathJoin E d ''SHASUM256.txt'')
      (log_op (Exists (pathJoin E d ''SHASUM256.txt'')) w) = (r, w2)"
    by (cases "pipe_request (shasumsFileUrl_of v) (pathJoin E d ''SHASUM256.txt'')
      (log_op (Exists (pathJoin E d ''SHASUM256.txt'')) w)")
  from arg_cong [OF r, of "\<lambda>x. trace (snd x)"]
  have t: "trace w2 = trace w @ [Exists (pathJoin E d ''SHASUM256.txt''),
      HttpGet (shasumsFileUrl_of v), WriteFile (pathJoin E d ''SHASUM256.txt'')]" by simp
  show ?thesis
    using True r t
    by (cases r) (simp_all add: shasums_body_def Let_def fs_exists_def file_ops_def)
qed

lemma shasums_promise_trace:
  "\<exists>ops. trace (snd (shasums_promise E dP vP w)) = trace w @ ops \<and> distinct ops \<and>
     (ops \<noteq> [] \<longrightarrow>
        (\<exists>d v. dP = Inr d \<and> vP = Inr v \<and>
           set ops \<subseteq> file_ops (pathJoin E d ''SHASUM256.txt'') (shasumsFileUrl_of v)))"
proof (cases dP)
  case (Inl e)
  then show ?thesis by (simp add: shasums_promise_def)
next
  case d: (Inr d)
  show ?thesis
  proof (cases vP)
    case (Inl e)
    then show ?thesis by (simp add: shasums_promise_def d)
  next
    case (Inr v)
    with d shasums_body_trace [of E d v w] show ?thesis
      by (auto simp: shasums_promise_def)
  qed
qed

lemma downloadAndCacheFile_trace:
  "\<exists>ops. trace (snd (downloadAndCacheFile E uP nP dP sP w)) = trace w @ ops \<and> distinct ops \<and>
     (ops \<noteq> [] \<longrightarrow>
        (\<exists>u n d. uP = Inr u \<and> nP = Inr n \<and> dP = Inr d \<and>
           set ops \<subseteq> file_ops (pathJoin E d n) u))"
proof (cases "\<exists>u n d s. uP = Inr u \<and> nP = Inr n \<and> dP = Inr d \<and> sP = Inr s")
  case True
  then obtain u n d s where "uP = Inr u" "nP = Inr n" "dP = Inr d" "sP = Inr s" by auto
  with ensure_trace [of E u n d s w] show ?thesis
    by (auto simp: downloadAndCacheFile_def file_ops_def)
next
  case False
  then have "snd (downloadAndCacheFile E uP nP dP sP w) = w"
    by (auto simp: downloadAndCacheFile_def split: sum.splits)
  then show ?thesis by simp
qed

lemma installerFileUrl_form:
  assumes "installerFileName this =
       then_promise (version this) (\<lambda>v. installerFileName_of v pl ar)"
    and "installerFileUrl this = join2 (version this) (installerFileName this) fileUrl_of"
    and "installerFileUrl this = Inr u"
  shows "\<exists>v. u = fileUrl_of v (installerFileName_of v pl ar)"
  using assms by (auto simp: join2_def then_promise_def split: sum.splits)

lemma srcFileUrl_form:
  assumes "srcFileName this = then_promise (version this) srcFileName_of"
    and "srcFileUrl this = join2 (version this) (srcFileName this) fileUrl_of"
    and "srcFileUrl this = Inr u"
  shows "\<exists>v. u = fileUrl_of v (srcFileName_of v)"
  using assms by (auto simp: join2_def then_promise_def split: sum.splits)

lemma HttpGet_in_file_ops: "HttpGet x \<in> file_ops p u \<longleftrightarrow> x = u"
  by (auto simp: file_ops_def)

text \<open>
  Claim C5. In one session the index is requested exactly once and the manifest at most
  once, however many promises depend on them. The operations of a session are: the making
  of the root directory and the one index request; the making of the version's directory;
  the operations of the one manifest retrieval, none of them twice; then the operations
  of the installer download and of the source download, which are operations on their
  own file and URL only. Both downloads are the method \<open>downloadAndCacheFile\<close> applied to
  the same outcome of the version promise (through the names, the URLs and the
  directory derived from it) and to the same outcome of the manifest promise.
\<close>

theorem session_resolves_once:
  "Installer E tp versionSelector opts w = (Inr this, w') \<longrightarrow>
     (\<exists>A M D1 D2.
        performed w w' = [Mkdirp (cacheRoot E), HttpGet indexJson] @ A @ M @ D1 @ D2 \<and>
        (\<forall>u. HttpGet u \<notin> set A) \<and>
        distinct M \<and>
        (M \<noteq> [] \<longrightarrow>
           (\<exists>d v. downloadCacheDirForVersion this = Inr d \<and> version this = Inr v \<and>
              set M \<subseteq> file_ops (pathJoin E d ''SHASUM256.txt'') (shasumsFileUrl_of v))) \<and>
        distinct D1 \<and>
        (D1 \<noteq> [] \<longrightarrow>
           (\<exists>u n d. installerFileUrl this = Inr u \<and> installerFileName this = Inr n \<and>
              downloadCacheDirForVersion this = Inr d \<and> set D1 \<subseteq> file_ops (pathJoin E d n) u)) \<and>
        distinct D2 \<and>
        (D2 \<noteq> [] \<longrightarrow>
           (\<exists>u n d. srcFileUrl this = Inr u \<and> srcFileName this = Inr n \<and>
              downloadCacheDirForVersion this = Inr d \<and> set D2 \<subseteq> file_ops (pathJoin E d n) u))) \<and>
     count_list (performed w w') (HttpGet indexJson) = 1 \<and>
     (\<forall>v. count_list (performed w w') (HttpGet (shasumsFileUrl_of v)) \<le> 1) \<and>
     installerFileName this =
       then_promise (version this)
         (\<lambda>v. installerFileName_of v (opt_platform E opts) (opt_arch E opts)) \<and>
     installerFileUrl this = join2 (version this) (installerFileName this) fileUrl_of \<and>
     srcFileName this = then_promise (version this) srcFileName_of \<and>
     srcFileUrl this = join2 (version this) (srcFileName this) fileUrl_of \<and>
     (\<exists>w4 w5.
        downloadAndCacheFile E (installerFileUrl this) (installerFileName this)
          (downloadCacheDirForVersion this) (shasums this) w4 = (installerFile this, w5) \<and>
        downloadAndCacheFile E (srcFileUrl this) (srcFileName this)
          (downloadCacheDirForVersion this) (shasums this) w5 = (srcFile this, w'))"
proof
  assume "Installer E tp versionSelector opts w = (Inr this, w')"
  then obtain w1 w2 w3 w4 w5 where
    s1: "downloadCacheDir_promise E w = (downloadCacheDir this, w1)" and
    s2: "version_promise E versionSelector w1 = (version this, w2)" and
    n1: "installerFileName this =
       then_promise (version this)
         (\<lambda>v. installerFileName_of v (opt_platform E opts) (opt_arch E opts))" and
    u1: "installerFileUrl this = join2 (version this) (installerFileName this) fileUrl_of" and
    n2: "srcFileName this = then_promise (version this) srcFileName_of" and
    u2: "srcFileUrl this = join2 (version this) (srcFileName this) fileUrl_of" and
    s3: "downloadCacheDirForVersion_promise E (version this) (downloadCacheDir this) w2 =
       (downloadCacheDirForVersion this, w3)" and
    s4: "shasums_promise E (downloadCacheDirForVersion this) (version this) w3 = (shasums this, w4)" and
    s5: "downloadAndCacheFile E (installerFileUrl this) (installerFileName this)
       (downloadCacheDirForVersion this) (shasums this) w4 = (installerFile this, w5)" and
    s6: "downloadAndCacheFile E (srcFileUrl this) (srcFileName this)
       (downloadCacheDirForVersion this) (shasums this) w5 = (srcFile this, w')"
    by (rule Installer_Inr)
  have t1: "trace w1 = trace w @ [Mkdirp (cacheRoot E)]"
    using arg_cong [OF s1, of "\<lambda>x. trace (snd x)"] by simp
  have t2: "trace w2 = trace w1 @ [HttpGet indexJson]"
    using arg_cong [OF s2, of "\<lambda>x. trace (snd x)"] by simp
  obtain A where t3: "trace w3 = trace w2 @ A" and A: "\<forall>u. HttpGet u \<notin> set A"
    using downloadCacheDirForVersion_trace [of E "version this" "downloadCacheDir this" w2]
    by (auto simp: s3)
  obtain M where t4: "trace w4 = trace w3 @ M" and M: "distinct M"
    and M': "M \<noteq> [] \<longrightarrow>
           (\<exists>d v. downloadCacheDirForVersion this = Inr d \<and> version this = Inr v \<and>
              set M \<subseteq> file_ops (pathJoin E d ''SHASUM256.txt'') (shasumsFileUrl_of v))"
    using shasums_promise_trace [of E "downloadCacheDirForVersion this" "version this" w3]
    by (auto simp: s4)
  obtain D1 where t5: "trace w5 = trace w4 @ D1" and D1: "distinct D1"
    and D1': "D1 \<noteq> [] \<longrightarrow>
           (\<exists>u n d. installerFileUrl this = Inr u \<and> installerFileName this = Inr n \<and>
              downloadCacheDirForVersion this = Inr d \<and> set D1 \<subseteq> file_ops (pathJoin E d n) u)"
    using downloadAndCacheFile_trace [of E "installerFileUrl this" "installerFileName this"
        "downloadCacheDirForVersion this" "shasums this" w4]
    by (auto simp: s5)
  obtain D2 where t6: "trace w' = trace w5 @ D2" and D2: "distinct D2"
    and D2': "D2 \<noteq> [] \<longrightarrow>
           (\<exists>u n d. srcFileUrl this = Inr u \<and> srcFileName this = Inr n \<and>
              downloadCacheDirForVersion this = Inr d \<and> set D2 \<subseteq> file_ops (pathJoin E d n) u)"
    using downloadAndCacheFile_trace [of E "srcFileUrl this" "srcFileName this"
        "downloadCacheDirForVersion this" "shasums this" w5]
    by (auto simp: s6)
  have p: "performed w w' = [Mkdirp (cacheRoot E), HttpGet indexJson] @ A @ M @ D1 @ D2"
    by (rule performed_append) (simp add: t1 t2 t3 t4 t5 t6)
  have gM: "HttpGet x \<in> set M \<Longrightarrow> \<exists>v. x = shasumsFileUrl_of v" for x
  proof -
    assume x: "HttpGet x \<in> set M"
    then have "M \<noteq> []" by auto
    with M' obtain d v where sub: "set M \<subseteq> file_ops (pathJoin E d ''SHASUM256.txt'')
        (shasumsFileUrl_of v)" by auto
    from x sub have "x = shasumsFileUrl_of v" by (auto simp: HttpGet_in_file_ops)
    then show ?thesis by blast
  qed
  have gD1: "HttpGet x \<in> set D1 \<Longrightarrow>
      \<exists>v. x = fileUrl_of v (installerFileName_of v (opt_platform E opts) (opt_arch E opts))" for x
  proof -
    assume x: "HttpGet x \<in> set D1"
    then have "D1 \<noteq> []" by auto
    with D1' obtain u n d where u: "installerFileUrl this = Inr u"
      and sub: "set D1 \<subseteq> file_ops (pathJoin E d n) u" by auto
    from x sub have "x = u" by (auto simp: HttpGet_in_file_ops)
    with installerFileUrl_form [OF n1 u1 u] show ?thesis by simp
  qed
  have gD2: "HttpGet x \<in> set D2 \<Longrightarrow> \<exists>v. x = fileUrl_of v (srcFileName_of v)" for x
  proof -
    assume x: "HttpGet x \<in> set D2"
    then have "D2 \<noteq> []" by auto
    with D2' obtain u n d where u: "srcFileUrl this = Inr u"
      and sub: "set D2 \<subseteq> file_ops (pathJoin E d n) u" by auto
    from x sub have "x = u" by (auto simp: HttpGet_in_file_ops)
    with srcFileUrl_form [OF n2 u2 u] show ?thesis by simp
  qed
  have iA: "count_list A (HttpGet indexJson) = 0" using A by (simp add: count_list_absent)
  have iM: "count_list M (HttpGet indexJson) = 0"
    using gM [of indexJson] indexJson_not_shasums by (intro count_list_absent) auto
  have iD1: "count_list D1 (HttpGet indexJson) = 0"
    using gD1 [of indexJson] indexJson_not_file by (intro count_list_absent) auto
  have iD2: "count_list D2 (HttpGet indexJson) = 0"
    using gD2 [of indexJson] indexJson_not_file by (intro count_list_absent) auto
  have c1: "count_list (performed w w') (HttpGet indexJson) = 1"
    by (simp add: p iA iM iD1 iD2)
  have c2: "count_list (performed w w') (HttpGet (shasumsFileUrl_of v)) \<le> 1" for v
  proof -
    have "count_list A (HttpGet (shasumsFileUrl_of v)) = 0"
      using A by (simp add: count_list_absent)
    moreover have "count_list M (HttpGet (shasumsFileUrl_of v)) \<le> 1"
      using M by (rule count_list_distinct)
    moreover have "count_list D1 (HttpGet (shasumsFileUrl_of v)) = 0"
      using gD1 [of "shasumsFileUrl_of v"] installer_url_not_shasums
      by (intro count_list_absent) (metis)
    moreover have "count_list D2 (HttpGet (shasumsFileUrl_of v)) = 0"
      using gD2 [of "shasumsFileUrl_of v"] src_url_not_shasums
      by (intro count_list_absent) (metis)
    ultimately show ?thesis
      using indexJson_not_shasums [of v] by (simp add: p)
  qed
  show "(\<exists>A M D1 D2.
        performed w w' = [Mkdirp (cacheRoot E), HttpGet indexJson] @ A @ M @ D1 @ D2 \<and>
        (\<forall>u. HttpGet u \<notin> set A) \<and>
        distinct M \<and>
        (M \<noteq> [] \<longrightarrow>
           (\<exists>d v. downloadCacheDirForVersion this = Inr d \<and> version this = Inr v \<and>
              set M \<subseteq> file_ops (pathJoin E d ''SHASUM256.txt'') (shasumsFileUrl_of v))) \<and>
        distinct D1 \<and>
        (D1 \<noteq> [] \<longrightarrow>
           (\<exists>u n d. installerFileUrl this = Inr u \<and> installerFileName this = Inr n \<and>
              downloadCacheDirForVersion this = Inr d \<and> set D1 \<subseteq> file_ops (pathJoin E d n) u)) \<and>
        distinct D2 \<and>
        (D2 \<noteq> [] \<longrightarrow>
           (\<exists>u n d. srcFileUrl this = Inr u \<and> srcFileName this = Inr n \<and>
              downloadCacheDirForVersion this = Inr d \<and> set D2 \<subseteq> file_ops (pathJoin E d n) u))) \<and>
     count_list (performed w w') (HttpGet indexJson) = 1 \<and>
     (\<forall>v. count_list (performed w w') (HttpGet (shasumsFileUrl_of v)) \<le> 1) \<and>
     installerFileName this =
       then_promise (version this)
         (\<lambda>v. installerFileName_of v (opt_platform E opts) (opt_arch E opts)) \<and>
     installerFileUrl this = join2 (version this) (installerFileName this) fileUrl_of \<and>
     srcFileName this = then_promise (version this) srcFileName_of \<and>
     srcFileUrl this = join2 (version this) (srcFileName this) fileUrl_of \<and>
     (\<exists>w4 w5.
        downloadAndCacheFile E (installerFileUrl this) (installerFileName this)
          (downloadCacheDirForVersion this) (shasums this) w4 = (installerFile this, w5) \<and>
        downloadAndCacheFile E (srcFileUrl this) (srcFileName this)
          (downloadCacheDirForVersion this) (shasums this) w5 = (srcFile this, w'))"
    using p A M M' D1 D1' D2 D2' c1 c2 n1 u1 n2 u2 s5 s6 by blast
qed

section \<open>The session on concrete inputs, and the success value of \<open>install\<close>\<close>

theorem session_resolves_once_witness:
  "Installer node_env ''/target'' ''^1.2.0'' default_opts world0 =
     (Inr (session_installer ''linux''), session_world ''linux'') \<and>
   performed world0 (session_world ''linux'') = session_trace ''linux'' \<and>
   count_list (session_trace ''linux'') (HttpGet ''https://iojs.org/dist/index.json'') = 1 \<and>
   count_list (session_trace ''linux'') (HttpGet ''https://iojs.org/dist/v1.3.0/SHASUMS256.txt'') \<le> 1"
proof -
  have p: "performed world0 (session_world ''linux'') = session_trace ''linux''"
    by (simp add: performed_def world0_def session_world_def)
  from session_resolves_once
         [where E = node_env and tp = "''/target''" and versionSelector = "''^1.2.0''"
            and opts = default_opts and w = world0 and this = "session_installer ''linux''"
            and w' = "session_world ''linux''"]
       session_linux
  have "count_list (performed world0 (session_world ''linux'')) (HttpGet indexJson) = 1"
    and "count_list (performed world0 (session_world ''linux''))
           (HttpGet (shasumsFileUrl_of ''1.3.0'')) \<le> 1"
    by blast+
  then show ?thesis
    using session_linux p by (simp add: indexJson_def shasumsFileUrl_of_def)
qed

theorem ensure_result_path_witness:
  "fst (ensure node_env ''https://iojs.org/dist/v1.3.0/foo.tar.gz'' ''foo.tar.gz''
     ''/opt/bundler/cache/1.3.0'' [''foo.tar.gz'' \<mapsto> empty_digest] world_hit) =
     Inr ''/opt/bundler/cache/1.3.0/foo.tar.gz'' \<and>
   ''/opt/bundler/cache/1.3.0/foo.tar.gz'' =
     pathJoin node_env ''/opt/bundler/cache/1.3.0'' ''foo.tar.gz'' \<and>
   installerFile (session_installer ''linux'') =
     Inr (pathJoin node_env (pathResolve node_env (cacheRoot node_env) ''1.3.0'')
            (installerFileName_of ''1.3.0'' ''linux'' ''x64'')) \<and>
   srcFile (session_installer ''linux'') =
     Inr (pathJoin node_env (pathResolve node_env (cacheRoot node_env) ''1.3.0'')
            (srcFileName_of ''1.3.0''))"
proof -
  have f: "files world_hit (pathJoin node_env ''/opt/bundler/cache/1.3.0'' ''foo.tar.gz'') =
      Some (File [])"
    by (simp add: world_hit_def node_env_def slash_join_def)
  have e: "fst (ensure node_env ''https://iojs.org/dist/v1.3.0/foo.tar.gz'' ''foo.tar.gz''
     ''/opt/bundler/cache/1.3.0'' [''foo.tar.gz'' \<mapsto> empty_digest] world_hit) =
     Inr ''/opt/bundler/cache/1.3.0/foo.tar.gz''"
    using f by (simp add: ensure_hit validateShasum_file shasum_of_empty_digest)
      (simp add: node_env_def slash_join_def)
  have i: "installerFile (session_installer ''linux'') =
      Inr ''/opt/bundler/cache/1.3.0/iojs-v1.3.0-linux-x64.tar.gz''"
    and s: "srcFile (session_installer ''linux'') = Inr ''/opt/bundler/cache/1.3.0/iojs-v1.3.0.tar.xz''"
    and v: "version (session_installer ''linux'') = Inr ''1.3.0''"
    by (simp_all add: session_installer_def)
  note t = ensure_result_path
         [where E = node_env and fileUrl = "''https://iojs.org/dist/v1.3.0/foo.tar.gz''"
            and fileName = "''foo.tar.gz''" and cacheDir = "''/opt/bundler/cache/1.3.0''"
            and sums = "[''foo.tar.gz'' \<mapsto> empty_digest]"
            and tp = "''/target''" and versionSelector = "''^1.2.0''"
            and opts = default_opts and this = "session_installer ''linux''"
            and w' = "session_world ''linux''"]
  from t [where p = "''/opt/bundler/cache/1.3.0/foo.tar.gz''" and w = world_hit] e
  have 1: "''/opt/bundler/cache/1.3.0/foo.tar.gz'' =
     pathJoin node_env ''/opt/bundler/cache/1.3.0'' ''foo.tar.gz''" by blast
  from t [where p = "''/opt/bundler/cache/1.3.0/iojs-v1.3.0-linux-x64.tar.gz''" and w = world0]
    i session_linux
  have "\<exists>v. version (session_installer ''linux'') = Inr v \<and>
         ''/opt/bundler/cache/1.3.0/iojs-v1.3.0-linux-x64.tar.gz'' =
           pathJoin node_env (pathResolve node_env (cacheRoot node_env) v)
               (installerFileName_of v (opt_platform node_env default_opts)
                  (opt_arch node_env default_opts))" by blast
  with v i have 2: "installerFile (session_installer ''linux'') =
     Inr (pathJoin node_env (pathResolve node_env (cacheRoot node_env) ''1.3.0'')
            (installerFileName_of ''1.3.0'' ''linux'' ''x64''))"
    by (auto simp: opt_platform_def opt_arch_def default_opts_def node_env_def)
  from t [where p = "''/opt/bundler/cache/1.3.0/iojs-v1.3.0.tar.xz''" and w = world0]
    s session_linux
  have "\<exists>v. version (session_installer ''linux'') = Inr v \<and>
         ''/opt/bundler/cache/1.3.0/iojs-v1.3.0.tar.xz'' =
           pathJoin node_env (pathResolve node_env (cacheRoot node_env) v) (srcFileName_of v)"
    by blast
  with v s have 3: "srcFile (session_installer ''linux'') =
     Inr (pathJoin node_env (pathResolve node_env (cacheRoot node_env) ''1.3.0'')
            (srcFileName_of ''1.3.0''))"
    by auto
  from e 1 2 3 show ?thesis by blast
qed

text \<open>
  Claim C4, as the code has it. \<open>install\<close> calls the callback with success exactly
  when the version and both artifacts are fulfilled, and the value it hands over is the
  installation built from the version alone: neither artifact path is part of it.
\<close>

theorem install_success_value:
  "(install this installPath = Some (CbOk i)) =
     (\<exists>v p q. version this = Inr v \<and> installerFile this = Inr p \<and> srcFile this = Inr q \<and>
        i = Installation v)"
  by (auto simp: install_def rejected_def split: sum.splits if_splits)

theorem install_success_value_witness:
  "install (session_installer ''linux'') ''/target'' = Some (CbOk (Installation ''1.3.0''))"
  using install_success_value
          [where this = "session_installer ''linux''" and installPath = "''/target''"
             and i = "Installation ''1.3.0''"]
  by (simp add: session_installer_def)

text \<open>
  The claim as the specification states it (the success value holds the artifact
  paths) fails: two sessions that differ in the platform only verify different installer
  artifacts and hand the callback the same value, the installation of version 1.3.0.
\<close>

theorem install_omits_artifact_paths:
  "Installer node_env ''/target'' ''^1.2.0'' default_opts world0 =
     (Inr (session_installer ''linux''), session_world ''linux'') \<and>
   Installer node_env ''/target'' ''^1.2.0'' darwin_opts world0 =
     (Inr (session_installer ''darwin''), session_world ''darwin'') \<and>
   installerFile (session_installer ''linux'') =
     Inr ''/opt/bundler/cache/1.3.0/iojs-v1.3.0-linux-x64.tar.gz'' \<and>
   installerFile (session_installer ''darwin'') =
     Inr ''/opt/bundler/cache/1.3.0/iojs-v1.3.0-darwin-x64.tar.gz'' \<and>
   install (session_installer ''linux'') ''/target'' = Some (CbOk (Installation ''1.3.0'')) \<and>
   install (session_installer ''darwin'') ''/target'' = Some (CbOk (Installation ''1.3.0''))"
  using session_linux session_darwin
  by (simp add: session_installer_def install_def)

end
